theory Spec2Isabelle
  imports Main "HOL-Library.AList"
begin

section \<open>Python values the rendering and caching core works with\<close>

text \<open>
  A Python exception is a value: its class name and the text \<open>str(e)\<close> gives.  Every
  handler of the code is \<open>except Exception\<close>, so the class never selects a branch.
\<close>

datatype error = Error (exc_class: string) (exc_str: string)

text \<open>
  A PIL bitmap is kept symbolically: the arguments of \<open>Image.new\<close> followed by the drawing
  calls made on it, in order.  The pixel arithmetic of the imaging library is not part of
  this repository; two bitmaps are pixel-equal when they were built by the same calls.
\<close>

type_synonym colour = "nat list"

datatype image = Image (mode: string) (dims: "int \<times> int") (fill: colour) (drawn: "draw_op list")
  and draw_op = AlphaComposite image "int \<times> int" | DrawText "int \<times> int" string colour

datatype level = DEBUG | WARNING | ERROR

type_synonym log_record = "level \<times> string"

section \<open>The file system and the clock\<close>

text \<open>
  A regular file as the code observes it: \<open>st_size\<close>, \<open>st_mtime\<close>, \<open>st_atime\<close>, and
  what \<open>Image.open\<close> makes of its bytes (\<open>None\<close>: it cannot be decoded).  Time stamps are
  only compared, so they are integers (clock ticks).  The file system lists regular files
  in directory order; directories are implicit in the paths.
\<close>

record regular_file =
  st_size :: nat
  st_mtime :: int
  st_atime :: int
  decodes_to :: "image option"

type_synonym filesystem = "(string \<times> regular_file) list"

record world =
  fs :: filesystem
  clock :: int
  log :: "log_record list"

text \<open>
  What the libraries outside the repository answer.  \<open>file_hash p s m\<close> is the MD5 hex digest
  of the path, \<open>str(st_size)\<close> and \<open>str(st_mtime)\<close>; \<open>png_save p img\<close> is
  \<open>img.save(p, "PNG", optimize=True)\<close>: it raises, or writes that many bytes;
  \<open>json_dump p md\<close> is opening \<open>p\<close> for writing and dumping the index into it;
  \<open>remove_error p\<close> is the exception \<open>os.remove(p)\<close> raises on an existing file, if any.
\<close>

record meta_entry =
  source_path :: string
  cache_path :: string
  size_bytes :: nat
  created_at :: int
  last_accessed :: int

type_synonym metadata_index = "(string \<times> meta_entry) list"

record env =
  file_hash :: "string \<Rightarrow> nat \<Rightarrow> int \<Rightarrow> string"
  png_save :: "string \<Rightarrow> image \<Rightarrow> error + nat"
  json_dump :: "string \<Rightarrow> metadata_index \<Rightarrow> error + nat"
  remove_error :: "string \<Rightarrow> error option"

definition logger :: "level \<Rightarrow> string \<Rightarrow> world \<Rightarrow> world" where
  "logger lv msg w = w\<lparr>log := log w @ [(lv, msg)]\<rparr>"

definition os_stat :: "world \<Rightarrow> string \<Rightarrow> error + regular_file" where
  "os_stat w p =
     (case map_of (fs w) p of
        None \<Rightarrow> Inl (Error ''FileNotFoundError'' (''No such file or directory: '' @ p))
      | Some f \<Rightarrow> Inr f)"

definition os_remove :: "env \<Rightarrow> string \<Rightarrow> world \<Rightarrow> error + world" where
  "os_remove E p w =
     (case map_of (fs w) p of
        None \<Rightarrow> Inl (Error ''FileNotFoundError'' (''No such file or directory: '' @ p))
      | Some f \<Rightarrow>
          (case remove_error E p of
             Some e \<Rightarrow> Inl e
           | None \<Rightarrow> Inr (w\<lparr>fs := AList.delete p (fs w)\<rparr>)))"

definition write_file :: "string \<Rightarrow> regular_file \<Rightarrow> world \<Rightarrow> world" where
  "write_file p f w = w\<lparr>fs := AList.update p f (fs w)\<rparr>"

subsection \<open>Paths\<close>

definition path_join :: "string \<Rightarrow> string \<Rightarrow> string" where
  "path_join d n = d @ ''/'' @ n"

definition path_name :: "string \<Rightarrow> string" where
  "path_name p = rev (takeWhile (\<lambda>c. c \<noteq> CHR ''/'') (rev p))"

text \<open>
  \<open>Path.suffix\<close>: with \<open>i\<close> the position of the last dot of the name, the text from that
  dot on when \<open>0 < i < len(name) - 1\<close>, and the empty string otherwise.
\<close>

definition path_suffix :: "string \<Rightarrow> string" where
  "path_suffix p =
     (let name = path_name p;
          after = takeWhile (\<lambda>c. c \<noteq> CHR ''.'') (rev name)
      in if CHR ''.'' \<in> set name \<and> after \<noteq> [] \<and> length after + 1 < length name
         then CHR ''.'' # rev after else [])"

text \<open>\<open>cache_dir.glob("**/*")\<close> restricted to regular files: every file below the directory.\<close>

definition under_dir :: "string \<Rightarrow> string \<Rightarrow> bool" where
  "under_dir d p \<longleftrightarrow> take (length d + 1) p = d @ ''/'' \<and> length d + 1 < length p"

definition glob_files :: "string \<Rightarrow> filesystem \<Rightarrow> filesystem" where
  "glob_files d files = filter (\<lambda>(p, f). under_dir d p) files"

section \<open>utils/cache\_manager.py: PSDFileCache\<close>

record PSDFileCache =
  cache_dir :: string
  metadata_file :: string
  metadata :: metadata_index
  max_cache_size :: nat

text \<open>
  The constructor, after \<open>_load_metadata\<close> has read the index \<open>md\<close> (empty when the file
  is missing or unreadable).
\<close>

definition PSDFileCache_init :: "string \<Rightarrow> metadata_index \<Rightarrow> PSDFileCache" where
  "PSDFileCache_init dir md =
     \<lparr>cache_dir = dir, metadata_file = path_join dir ''metadata.json'', metadata = md,
      max_cache_size = 1024 * 1024 * 1024\<rparr>"

definition save_metadata :: "env \<Rightarrow> PSDFileCache \<Rightarrow> world \<Rightarrow> world" where
  "save_metadata E c w =
     (case json_dump E (metadata_file c) (metadata c) of
        Inl e \<Rightarrow> logger ERROR (''Failed to save cache metadata: '' @ exc_str e) w
      | Inr n \<Rightarrow>
          write_file (metadata_file c)
            \<lparr>st_size = n, st_mtime = clock w, st_atime = clock w, decodes_to = None\<rparr> w)"

definition get_file_hash :: "env \<Rightarrow> world \<Rightarrow> string \<Rightarrow> error + string" where
  "get_file_hash E w filepath =
     (case os_stat w filepath of
        Inl e \<Rightarrow> Inl e
      | Inr file_stat \<Rightarrow> Inr (file_hash E filepath (st_size file_stat) (st_mtime file_stat)))"

definition get_cache_path :: "env \<Rightarrow> PSDFileCache \<Rightarrow> world \<Rightarrow> string \<Rightarrow> string \<Rightarrow> error + string" where
  "get_cache_path E c w filepath suffix =
     (case get_file_hash E w filepath of
        Inl e \<Rightarrow> Inl e
      | Inr h \<Rightarrow> Inr (path_join (cache_dir c) (h @ suffix @ ''.png'')))"

definition get_cached_image ::
  "env \<Rightarrow> PSDFileCache \<Rightarrow> string \<Rightarrow> string \<Rightarrow> world \<Rightarrow> (error + image option) \<times> world" where
  "get_cached_image E c filepath suffix w =
     (case get_cache_path E c w filepath suffix of
        Inl e \<Rightarrow> (Inl e, w)
      | Inr cpath \<Rightarrow>
          (case map_of (fs w) cpath of
             None \<Rightarrow> (Inr None, w)
           | Some cf \<Rightarrow>
               (case os_stat w filepath of
                  Inl e \<Rightarrow> (Inl e, w)
                | Inr sf \<Rightarrow>
                    if st_mtime cf < st_mtime sf then
                      (case os_remove E cpath w of
                         Inl e \<Rightarrow>
                           (Inr None,
                            logger WARNING
                              (''Failed to remove stale cache '' @ cpath @ '': '' @ exc_str e) w)
                       | Inr w' \<Rightarrow> (Inr None, w'))
                    else
                      (case decodes_to cf of
                         None \<Rightarrow>
                           (Inr None,
                            logger WARNING
                              (''Failed to load cached image '' @ cpath @ '': cannot identify image file'') w)
                       | Some img \<Rightarrow> (Inr (Some img), w)))))"

text \<open>
  The deletion loop of \<open>_cleanup_cache\<close>: the running total and the world are threaded
  through; \<open>break\<close> is the first branch.
\<close>

fun evict_loop :: "env \<Rightarrow> nat \<Rightarrow> (string \<times> int) list \<Rightarrow> int \<Rightarrow> world \<Rightarrow> int \<times> world" where
  "evict_loop E mx [] tot w = (tot, w)"
| "evict_loop E mx ((f, a) # rest) tot w =
     (if tot \<le> int mx then (tot, w)
      else
        (case os_stat w f of
           Inl e \<Rightarrow>
             evict_loop E mx rest tot
               (logger WARNING (''Failed to clean up cache file '' @ f @ '': '' @ exc_str e) w)
         | Inr st \<Rightarrow>
             (case os_remove E f w of
                Inl e \<Rightarrow>
                  evict_loop E mx rest tot
                    (logger WARNING (''Failed to clean up cache file '' @ f @ '': '' @ exc_str e) w)
              | Inr w' \<Rightarrow> evict_loop E mx rest (tot - int (st_size st)) w')))"

definition total_size :: "string \<Rightarrow> filesystem \<Rightarrow> int" where
  "total_size d files = sum_list (map (\<lambda>(p, f). int (st_size f)) (glob_files d files))"

definition candidates :: "string \<Rightarrow> filesystem \<Rightarrow> (string \<times> int) list" where
  "candidates d files =
     map (\<lambda>(p, f). (p, st_atime f))
       (filter (\<lambda>(p, f). path_suffix p \<in> set [''.png'', ''.jpg'', ''.jpeg'']) (glob_files d files))"

text \<open>The list \<open>files\<close> after \<open>files.sort(key=lambda x: x[1])\<close>; the sort is stable.\<close>

definition files_by_atime :: "string \<Rightarrow> filesystem \<Rightarrow> (string \<times> int) list" where
  "files_by_atime d files = sort_key snd (candidates d files)"

definition cleanup_cache :: "env \<Rightarrow> PSDFileCache \<Rightarrow> world \<Rightarrow> world" where
  "cleanup_cache E c w =
     (let tot = total_size (cache_dir c) (fs w) in
      if tot \<le> int (max_cache_size c) then w
      else
        (let files = files_by_atime (cache_dir c) (fs w)
         in snd (evict_loop E (max_cache_size c) files tot w)))"

definition save_image_to_cache ::
  "env \<Rightarrow> PSDFileCache \<Rightarrow> image \<Rightarrow> string \<Rightarrow> string \<Rightarrow> world \<Rightarrow> PSDFileCache \<times> world" where
  "save_image_to_cache E c img filepath suffix w =
     (case get_cache_path E c w filepath suffix of
        Inl e \<Rightarrow> (c, logger ERROR (''Failed to save image to cache: '' @ exc_str e) w)
      | Inr cpath \<Rightarrow>
          (case png_save E cpath img of
             Inl e \<Rightarrow> (c, logger ERROR (''Failed to save image to cache: '' @ exc_str e) w)
           | Inr n \<Rightarrow>
               (let w1 = write_file cpath
                           \<lparr>st_size = n, st_mtime = clock w, st_atime = clock w,
                            decodes_to = Some img\<rparr> w
                in case get_file_hash E w1 filepath of
                     Inl e \<Rightarrow> (c, logger ERROR (''Failed to save image to cache: '' @ exc_str e) w1)
                   | Inr h \<Rightarrow>
                       (let entry = \<lparr>source_path = filepath, cache_path = cpath, size_bytes = n,
                                     created_at = clock w1, last_accessed = clock w1\<rparr>;
                            c' = c\<lparr>metadata := AList.update (h @ suffix) entry (metadata c)\<rparr>;
                            w2 = save_metadata E c' w1
                        in (c', cleanup_cache E c' w2)))))"

section \<open>Python strings\<close>

fun split_on :: "char \<Rightarrow> string \<Rightarrow> string list" where
  "split_on c [] = [[]]"
| "split_on c (x # xs) =
     (if x = c then [] # split_on c xs
      else (case split_on c xs of [] \<Rightarrow> [[x]] | y # ys \<Rightarrow> (x # y) # ys))"

fun join :: "string \<Rightarrow> string list \<Rightarrow> string" where
  "join sep [] = []"
| "join sep [x] = x"
| "join sep (x # y # ys) = x @ sep @ join sep (y # ys)"

function str_nat :: "nat \<Rightarrow> string" where
  "str_nat n =
     (if n < 10 then [''0123456789'' ! n] else str_nat (n div 10) @ [''0123456789'' ! (n mod 10)])"
  by pat_completeness auto
termination
  by (relation "measure (\<lambda>n. n)") auto

declare str_nat.simps [simp del]

definition enumerate_from0 :: "'a list \<Rightarrow> (nat \<times> 'a) list" where
  "enumerate_from0 xs = zip [0..<length xs] xs"

section \<open>The parsed PSD document, as the code reads it\<close>

text \<open>
  A layer of the parser's object model: \<open>name\<close>, \<open>visible\<close>, \<open>is_group()\<close>, the children a
  group iterates over, \<open>left\<close>, \<open>top\<close>, \<open>width\<close>, \<open>height\<close>, and \<open>topil\<close>: \<open>None\<close> when the
  layer has no callable \<open>topil\<close>, otherwise what the call does (it raises, returns \<open>None\<close>,
  or returns a bitmap).
\<close>

datatype layer =
  Layer (layer_name: string) (layer_visible: bool) (is_group: bool) (children: "layer list")
        (layer_left: int) (layer_top: int) (layer_width: int) (layer_height: int)
        (layer_topil: "(error + image option) option")

record psd_header =
  header_width :: "int option"
  header_height :: "int option"

text \<open>
  The \<open>PSDImage\<close> object.  An attribute the object may lack is an option (\<open>None\<close>: no such
  attribute); a method is what calling it does.  \<open>psd_layers\<close> is the top-level layer
  sequence, top of the stack first: iterating the document yields it, and the attribute
  \<open>layers\<close>, when the object has one (\<open>has_layers\<close>), is the same list.
\<close>

record psd_image =
  type_name :: string
  psd_composite :: "(error + image option) option"
  psd_topil :: "(error + image option) option"
  psd_get_composite_image :: "(error + image option) option"
  psd_layers :: "layer list"
  has_layers :: bool
  psd_header :: "psd_header option"
  psd_width :: "int option"
  psd_height :: "int option"

definition attr_names :: "psd_image \<Rightarrow> string list" where
  "attr_names psd =
     (if psd_composite psd \<noteq> None then [''composite''] else []) @
     (if psd_topil psd \<noteq> None then [''topil''] else []) @
     (if psd_get_composite_image psd \<noteq> None then [''get_composite_image''] else []) @
     (if has_layers psd then [''layers''] else []) @
     (if psd_header psd \<noteq> None then [''header''] else []) @
     (if psd_width psd \<noteq> None then [''width''] else []) @
     (if psd_height psd \<noteq> None then [''height''] else [])"

definition hasattr :: "psd_image \<Rightarrow> string \<Rightarrow> bool" where
  "hasattr psd a \<longleftrightarrow> a \<in> set (attr_names psd)"

definition attribute_error :: "psd_image \<Rightarrow> string \<Rightarrow> error" where
  "attribute_error psd a =
     Error ''AttributeError''
       ([CHR 0x27] @ type_name psd @ [CHR 0x27] @ '' object has no attribute '' @
        [CHR 0x27] @ a @ [CHR 0x27])"

section \<open>The imaging library\<close>

text \<open>
  Which calls of the imaging library raise is a parameter: \<open>Image.new\<close>,
  \<open>Image.alpha_composite\<close>, \<open>ImageDraw.Draw\<close>, \<open>ImageFont.load_default\<close> and
  \<open>draw.text\<close>.  A call that does not raise has its effect recorded in the bitmap.
\<close>

record pil =
  new_error :: "string \<Rightarrow> int \<times> int \<Rightarrow> error option"
  alpha_composite_error :: "image \<Rightarrow> image \<Rightarrow> int \<times> int \<Rightarrow> error option"
  draw_error :: "image \<Rightarrow> error option"
  load_default_error :: "error option"
  text_error :: "image \<Rightarrow> int \<times> int \<Rightarrow> string \<Rightarrow> error option"

definition image_new :: "pil \<Rightarrow> string \<Rightarrow> int \<times> int \<Rightarrow> colour \<Rightarrow> error + image" where
  "image_new P m sz col =
     (case new_error P m sz of Some e \<Rightarrow> Inl e | None \<Rightarrow> Inr (Image m sz col []))"

definition alpha_composite :: "pil \<Rightarrow> image \<Rightarrow> image \<Rightarrow> int \<times> int \<Rightarrow> error + image" where
  "alpha_composite P canvas im dest =
     (case alpha_composite_error P canvas im dest of
        Some e \<Rightarrow> Inl e
      | None \<Rightarrow>
          Inr (Image (mode canvas) (dims canvas) (fill canvas)
                 (drawn canvas @ [AlphaComposite im dest])))"

definition draw_text :: "pil \<Rightarrow> image \<Rightarrow> int \<times> int \<Rightarrow> string \<Rightarrow> colour \<Rightarrow> error + image" where
  "draw_text P img xy line col =
     (case text_error P img xy line of
        Some e \<Rightarrow> Inl e
      | None \<Rightarrow>
          Inr (Image (mode img) (dims img) (fill img) (drawn img @ [DrawText xy line col])))"

section \<open>rendering.py: PSDFullRenderer\<close>

text \<open>
  The renderer object.  \<open>self.psd\<close> is a reference to the \<open>PSDImage\<close> object the document
  owns; the functions that read it take that object as an argument.  A callback is named
  by a number; what calling it does is the parameter \<open>callback_error\<close> (the exception it
  raises, if any), and every call is recorded.
\<close>

type_synonym callback = nat

record PSDFullRenderer =
  self_filepath :: "string option"
  self_composite :: "image option"
  self_loading :: bool
  self_callbacks :: "callback list"

text \<open>
  A lambda of \<open>try_methods\<close>: its \<open>__name__\<close> and what calling it does on the document.
\<close>

record lambda_fn =
  dunder_name :: string
  call :: "psd_image \<Rightarrow> error + image option"

definition call_attr ::
  "string \<Rightarrow> (psd_image \<Rightarrow> (error + image option) option) \<Rightarrow> psd_image \<Rightarrow> error + image option" where
  "call_attr a get psd = (case get psd of None \<Rightarrow> Inl (attribute_error psd a) | Some r \<Rightarrow> r)"

text \<open>The \<open>__name__\<close> of a function written as a lambda expression is \<open><lambda>\<close>.\<close>

definition try_methods :: "(string \<times> lambda_fn) list" where
  "try_methods =
     [(''psd.composite()'',
         \<lparr>dunder_name = ''<lambda>'', call = call_attr ''composite'' psd_composite\<rparr>),
      (''psd.topil()'',
         \<lparr>dunder_name = ''<lambda>'', call = call_attr ''topil'' psd_topil\<rparr>),
      (''psd.get_composite_image()'',
         \<lparr>dunder_name = ''<lambda>'',
          call = call_attr ''get_composite_image'' psd_get_composite_image\<rparr>)]"

text \<open>
  The loop over \<open>try_methods\<close>.  The state is \<open>composite\<close>, \<open>methods_tried\<close> and the
  world (for the log); \<open>break\<close> is the branch that does not recurse.
\<close>

fun try_loop ::
  "psd_image \<Rightarrow> (string \<times> lambda_fn) list \<Rightarrow> image option \<times> string list \<times> world
     \<Rightarrow> image option \<times> string list \<times> world" where
  "try_loop psd [] st = st"
| "try_loop psd ((method_name, m) # rest) (composite, methods_tried, w) =
     (if hasattr psd (last (split_on (CHR ''.'') (dunder_name m))) then
        (case call m psd of
           Inl e \<Rightarrow>
             try_loop psd rest
               (composite, methods_tried @ [method_name @ '' failed: '' @ exc_str e],
                logger WARNING (method_name @ '' failed: '' @ exc_str e) w)
         | Inr None \<Rightarrow> try_loop psd rest (None, methods_tried, w)
         | Inr (Some img) \<Rightarrow>
             (Some img, methods_tried @ [method_name],
              logger DEBUG (''Success with '' @ method_name) w))
      else try_loop psd rest (composite, methods_tried, w))"

text \<open>
  The loop over \<open>enumerate(reversed(self.psd.layers))\<close>: its body for the layer at
  position \<open>i\<close>, and the iteration.
\<close>

definition layer_body :: "pil \<Rightarrow> nat \<Rightarrow> layer \<Rightarrow> image \<times> world \<Rightarrow> image \<times> world" where
  "layer_body P i layer st =
     (case st of (composite, w) \<Rightarrow>
        if layer_visible layer then
          (case layer_topil layer of
             None \<Rightarrow> (composite, w)
           | Some (Inl e) \<Rightarrow>
               (composite,
                logger WARNING
                  (''Layer '' @ str_nat i @ '' error ('' @ layer_name layer @ ''): '' @ exc_str e) w)
           | Some (Inr None) \<Rightarrow> (composite, w)
           | Some (Inr (Some layer_img)) \<Rightarrow>
               (case alpha_composite P composite layer_img (layer_left layer, layer_top layer) of
                  Inl e \<Rightarrow>
                    (composite,
                     logger WARNING
                       (''Layer '' @ str_nat i @ '' error ('' @ layer_name layer @ ''): '' @ exc_str e) w)
                | Inr composite' \<Rightarrow>
                    (composite',
                     logger DEBUG
                       (''Layer '' @ str_nat i @ '' composited: '' @ layer_name layer) w)))
        else (composite, w))"

fun layer_loop :: "pil \<Rightarrow> (nat \<times> layer) list \<Rightarrow> image \<times> world \<Rightarrow> image \<times> world" where
  "layer_loop P [] st = st"
| "layer_loop P ((i, layer) # rest) st = layer_loop P rest (layer_body P i layer st)"

text \<open>\<open>a or b\<close> on an attribute read with default \<open>None\<close> and one read with default \<open>0\<close>.\<close>

definition or_default :: "int option \<Rightarrow> int option \<Rightarrow> int" where
  "or_default a b =
     (case a of
        Some n \<Rightarrow> if n \<noteq> 0 then n else (case b of None \<Rightarrow> 0 | Some k \<Rightarrow> k)
      | None \<Rightarrow> (case b of None \<Rightarrow> 0 | Some k \<Rightarrow> k))"

definition manual_failed ::
  "error \<Rightarrow> image option \<times> string list \<times> world \<Rightarrow> image option \<times> string list \<times> world" where
  "manual_failed e st =
     (case st of (composite, methods_tried, w) \<Rightarrow>
        (composite, methods_tried @ [''manual composition failed: '' @ exc_str e],
         logger ERROR (''Manual composition failed: '' @ exc_str e) w))"

text \<open>The body of the \<open>try\<close> of manual layer composition, with its handler.\<close>

definition manual_composition ::
  "pil \<Rightarrow> psd_image \<Rightarrow> image option \<times> string list \<times> world
     \<Rightarrow> image option \<times> string list \<times> world" where
  "manual_composition P psd st =
     (case st of (composite, methods_tried, w) \<Rightarrow>
        (let w0 = logger DEBUG ''Attempting manual layer composition'' w in
         case psd_header psd of
           None \<Rightarrow> manual_failed (attribute_error psd ''header'') (composite, methods_tried, w0)
         | Some hdr \<Rightarrow>
             (let width = or_default (header_width hdr) (psd_width psd);
                  height = or_default (header_height hdr) (psd_height psd)
              in case (if width = 0 \<or> height = 0
                       then (case psd_layers psd of
                               [] \<Rightarrow> Inl (Error ''IndexError'' ''list index out of range'')
                             | first_layer # _ \<Rightarrow>
                                 Inr (layer_width first_layer, layer_height first_layer))
                       else Inr (width, height)) of
                   Inl e \<Rightarrow> manual_failed e (composite, methods_tried, w0)
                 | Inr (width, height) \<Rightarrow>
                     if width = 0 \<or> height = 0 then
                       manual_failed (Error ''ValueError'' ''Unable to determine image dimensions'')
                         (composite, methods_tried, w0)
                     else
                       (case image_new P ''RGBA'' (width, height) [0, 0, 0, 0] of
                          Inl e \<Rightarrow> manual_failed e (composite, methods_tried, w0)
                        | Inr canvas \<Rightarrow>
                            (case layer_loop P (enumerate_from0 (rev (psd_layers psd))) (canvas, w0) of
                               (composite', w1) \<Rightarrow>
                                 (Some composite',
                                  methods_tried @ [''manual layer composition''], w1))))))"

text \<open>The strategies of \<open>_generate_composite\<close>, up to the test \<open>if not composite\<close>.\<close>

definition strategies :: "pil \<Rightarrow> psd_image \<Rightarrow> world \<Rightarrow> image option \<times> string list \<times> world" where
  "strategies P psd w =
     (let w0 = logger DEBUG (''Generating composite for PSD: '' @ type_name psd) w;
          st = try_loop psd try_methods (None, [], w0)
      in if fst st = None \<and> has_layers psd \<and> psd_layers psd \<noteq> []
         then manual_composition P psd st else st)"

fun draw_lines :: "pil \<Rightarrow> (nat \<times> string) list \<Rightarrow> image \<Rightarrow> error + image" where
  "draw_lines P [] img = Inr img"
| "draw_lines P ((i, line) # rest) img =
     (case draw_text P img (10, 10 + int i * 20) line [200, 0, 0] of
        Inl e \<Rightarrow> Inl e
      | Inr img' \<Rightarrow> draw_lines P rest img')"

definition placeholder_text :: "string list \<Rightarrow> string" where
  "placeholder_text methods_tried =
     ''Failed to load PSD file.'' @ [CHR 0x0A, CHR 0x0A] @ ''Tried methods:'' @ [CHR 0x0A] @
     join [CHR 0x0A] (map (\<lambda>m. ''- '' @ m) methods_tried)"

definition placeholder :: "pil \<Rightarrow> string list \<Rightarrow> error + image" where
  "placeholder P methods_tried =
     (case image_new P ''RGB'' (800, 200) [255, 200, 200] of
        Inl e \<Rightarrow> Inl e
      | Inr img \<Rightarrow>
          (case draw_error P img of
             Some e \<Rightarrow> Inl e
           | None \<Rightarrow>
               (case load_default_error P of
                  Some e \<Rightarrow> Inl e
                | None \<Rightarrow>
                    draw_lines P
                      (enumerate_from0 (split_on (CHR 0x0A) (placeholder_text methods_tried))) img)))"

definition generate_composite ::
  "pil \<Rightarrow> env \<Rightarrow> psd_image \<Rightarrow> PSDFullRenderer \<Rightarrow> PSDFileCache \<times> world
     \<Rightarrow> (error + image) \<times> PSDFileCache \<times> world" where
  "generate_composite P E psd self cw =
     (case cw of (cache, w) \<Rightarrow>
        (case strategies P psd w of
           (None, methods_tried, w1) \<Rightarrow>
             (let error_msg =
                    ''Could not generate composite. Tried methods: '' @ join '', '' methods_tried;
                  w2 = logger ERROR error_msg w1
              in case placeholder P methods_tried of
                   Inr img \<Rightarrow> (Inr img, cache, w2)
                 | Inl fallback_error \<Rightarrow>
                     (Inl (Error ''ValueError'' error_msg), cache,
                      logger ERROR
                        (''Failed to create error placeholder: '' @ exc_str fallback_error) w2))
         | (Some composite, methods_tried, w1) \<Rightarrow>
             (case self_filepath self of
                None \<Rightarrow> (Inr composite, cache, w1)
              | Some fp \<Rightarrow>
                  if fp = [] then (Inr composite, cache, w1)
                  else (case save_image_to_cache E cache composite fp ''_full'' w1 of
                          (cache', w2) \<Rightarrow> (Inr composite, cache', w2)))))"

text \<open>
  The running process: the renderer, the global \<open>psd_cache\<close>, the world, the number of
  worker threads started and not yet run, the record of callback invocations, and the
  exceptions that ended a worker thread uncaught.
\<close>

record process =
  renderer :: PSDFullRenderer
  psd_cache :: PSDFileCache
  wld :: world
  started :: nat
  invoked :: "(callback \<times> image) list"
  uncaught :: "error list"

text \<open>The constructor: the cache is consulted when a path is given and the document has \<open>composite\<close>.\<close>

definition PSDFullRenderer_init ::
  "env \<Rightarrow> psd_image \<Rightarrow> string option \<Rightarrow> PSDFileCache \<times> world \<Rightarrow> PSDFullRenderer \<times> world" where
  "PSDFullRenderer_init E psd fpath cw =
     (case cw of (cache, w) \<Rightarrow>
        (let self = \<lparr>self_filepath = fpath, self_composite = None, self_loading = False,
                     self_callbacks = []\<rparr>
         in case fpath of
              None \<Rightarrow> (self, w)
            | Some fp \<Rightarrow>
                if fp \<noteq> [] \<and> hasattr psd ''composite'' then
                  (case get_cached_image E cache fp ''_full'' w of
                     (Inl e, w') \<Rightarrow>
                       (self, logger WARNING (''Failed to load from cache: '' @ exc_str e) w')
                   | (Inr None, w') \<Rightarrow> (self, w')
                   | (Inr (Some cached), w') \<Rightarrow> (self\<lparr>self_composite := Some cached\<rparr>, w'))
                else (self, w)))"

fun run_callbacks ::
  "(callback \<Rightarrow> image \<Rightarrow> error option) \<Rightarrow> callback list \<Rightarrow> image \<Rightarrow> process \<Rightarrow> process" where
  "run_callbacks cb_error [] composite p = p"
| "run_callbacks cb_error (cb # rest) composite p =
     (let p1 = p\<lparr>invoked := invoked p @ [(cb, composite)]\<rparr>
      in case cb_error cb composite of
           None \<Rightarrow> run_callbacks cb_error rest composite p1
         | Some e \<Rightarrow>
             run_callbacks cb_error rest composite
               (p1\<lparr>wld := logger ERROR
                            (''Error in callback '' @ str_nat cb @ '': '' @ exc_str e) (wld p1)\<rparr>))"

definition on_composite_ready ::
  "(callback \<Rightarrow> image \<Rightarrow> error option) \<Rightarrow> image \<Rightarrow> process \<Rightarrow> process" where
  "on_composite_ready cb_error composite p =
     (let p1 = p\<lparr>renderer := (renderer p)\<lparr>self_composite := Some composite, self_loading := False\<rparr>\<rparr>;
          p2 = run_callbacks cb_error (self_callbacks (renderer p1)) composite p1
      in p2\<lparr>renderer := (renderer p2)\<lparr>self_callbacks := []\<rparr>\<rparr>)"

definition get_composite_image :: "callback option \<Rightarrow> process \<Rightarrow> image option \<times> process" where
  "get_composite_image cb p =
     (case self_composite (renderer p) of
        Some img \<Rightarrow> (Some img, p)
      | None \<Rightarrow>
          (let p1 = (case cb of
                       None \<Rightarrow> p
                     | Some f \<Rightarrow>
                         p\<lparr>renderer := (renderer p)\<lparr>self_callbacks := self_callbacks (renderer p) @ [f]\<rparr>\<rparr>);
               p2 = (if \<not> self_loading (renderer p1)
                     then p1\<lparr>renderer := (renderer p1)\<lparr>self_loading := True\<rparr>,
                             started := started p1 + 1\<rparr>
                     else p1)
           in (None, p2)))"

text \<open>
  What a started worker thread runs: \<open>self._on_composite_ready(self._generate_composite())\<close>.
  An exception of the generation ends the thread; nothing in the thread body catches it.
\<close>

definition thread_target ::
  "pil \<Rightarrow> env \<Rightarrow> (callback \<Rightarrow> image \<Rightarrow> error option) \<Rightarrow> psd_image \<Rightarrow> process \<Rightarrow> process" where
  "thread_target P E cb_error psd p =
     (case generate_composite P E psd (renderer p) (psd_cache p, wld p) of
        (Inl e, cache', w') \<Rightarrow>
          p\<lparr>psd_cache := cache', wld := w', started := started p - 1, uncaught := uncaught p @ [e]\<rparr>
      | (Inr composite, cache', w') \<Rightarrow>
          on_composite_ready cb_error composite
            (p\<lparr>psd_cache := cache', wld := w', started := started p - 1\<rparr>))"

text \<open>Successive requests from the caller's thread; the results are collected in order.\<close>

fun requests :: "callback option list \<Rightarrow> process \<Rightarrow> image option list \<times> process" where
  "requests [] p = ([], p)"
| "requests (cb # cbs) p =
     (case get_composite_image cb p of
        (r, p1) \<Rightarrow> (case requests cbs p1 of (rs, p2) \<Rightarrow> (r # rs, p2)))"

text \<open>
  The caller's thread and the worker thread share the renderer and no lock is taken, so the
  other thread may run between any two statements.  The statements of
  \<open>get_composite_image\<close> one by one: the test of \<open>self._composite\<close>, the attachment of
  the callback, and the test of \<open>self._loading\<close> with the start of the worker.  The two
  halves of the worker's target: the call of \<open>self._generate_composite()\<close>, whose result
  the worker holds, and what it then does with it (\<open>self._on_composite_ready\<close>, or the
  end of the thread when the call raised).
\<close>

definition call_check :: "process \<Rightarrow> image option" where
  "call_check p = self_composite (renderer p)"

definition call_attach :: "callback option \<Rightarrow> process \<Rightarrow> process" where
  "call_attach cb p =
     (case cb of
        None \<Rightarrow> p
      | Some f \<Rightarrow>
          p\<lparr>renderer := (renderer p)\<lparr>self_callbacks := self_callbacks (renderer p) @ [f]\<rparr>\<rparr>)"

definition call_start :: "process \<Rightarrow> process" where
  "call_start p =
     (if \<not> self_loading (renderer p)
      then p\<lparr>renderer := (renderer p)\<lparr>self_loading := True\<rparr>, started := started p + 1\<rparr>
      else p)"

definition thread_generate ::
  "pil \<Rightarrow> env \<Rightarrow> psd_image \<Rightarrow> process \<Rightarrow> (error + image) \<times> process" where
  "thread_generate P E psd p =
     (case generate_composite P E psd (renderer p) (psd_cache p, wld p) of
        (r, cache', w') \<Rightarrow> (r, p\<lparr>psd_cache := cache', wld := w'\<rparr>))"

definition thread_finish ::
  "(callback \<Rightarrow> image \<Rightarrow> error option) \<Rightarrow> error + image \<Rightarrow> process \<Rightarrow> process" where
  "thread_finish cb_error r p =
     (case r of
        Inl e \<Rightarrow> p\<lparr>started := started p - 1, uncaught := uncaught p @ [e]\<rparr>
      | Inr composite \<Rightarrow> on_composite_ready cb_error composite (p\<lparr>started := started p - 1\<rparr>))"

section \<open>models/psd.py: PSDDocument\<close>

record PSDDocument =
  doc_filepath :: "string option"
  doc_psd :: "psd_image option"
  doc_renderer :: "PSDFullRenderer option"

text \<open>
  The inner function \<open>set_visibility\<close> and its loop over the children of a group; the
  layer is returned as the call leaves it.  In \<open>set_layer_visibility\<close> the guard
  \<open>if not self.psd\<close> is the \<open>None\<close> case (a document without layers, which Python
  also counts as false, gets the same answer from the empty loop).
\<close>

fun set_visibility :: "layer \<Rightarrow> string \<Rightarrow> bool \<Rightarrow> bool \<times> layer"
  and set_visibility_loop :: "layer list \<Rightarrow> string \<Rightarrow> bool \<Rightarrow> bool \<times> layer list" where
  "set_visibility (Layer nm vis grp chs l t wd ht tp) n is_visible =
     (if nm = n then (True, Layer nm is_visible grp chs l t wd ht tp)
      else if grp then
        (case set_visibility_loop chs n is_visible of
           (found, chs') \<Rightarrow> (found, Layer nm vis grp chs' l t wd ht tp))
      else (False, Layer nm vis grp chs l t wd ht tp))"
| "set_visibility_loop [] n is_visible = (False, [])"
| "set_visibility_loop (child # rest) n is_visible =
     (case set_visibility child n is_visible of
        (True, child') \<Rightarrow> (True, child' # rest)
      | (False, child') \<Rightarrow>
          (case set_visibility_loop rest n is_visible of
             (found, rest') \<Rightarrow> (found, child' # rest')))"

definition set_layer_visibility :: "string \<Rightarrow> bool \<Rightarrow> PSDDocument \<Rightarrow> bool \<times> PSDDocument" where
  "set_layer_visibility lname vis doc =
     (case doc_psd doc of
        None \<Rightarrow> (False, doc)
      | Some psd \<Rightarrow>
          (case set_visibility_loop (psd_layers psd) lname vis of
             (found, layers') \<Rightarrow> (found, doc\<lparr>doc_psd := Some (psd\<lparr>psd_layers := layers'\<rparr>)\<rparr>)))"

text \<open>
  \<open>PSDDocument.get_composite_image\<close>: without a renderer the answer is \<open>None\<close>; otherwise
  the request goes to the renderer the document holds, which is the renderer of the running
  process.  The renderer's method raises nothing, so the handler of the \<open>try\<close> has no case.
\<close>

definition PSDDocument_get_composite_image ::
  "PSDDocument \<Rightarrow> process \<Rightarrow> image option \<times> PSDDocument \<times> process" where
  "PSDDocument_get_composite_image doc p =
     (case doc_renderer doc of
        None \<Rightarrow> (None, doc, p)
      | Some r \<Rightarrow>
          (case get_composite_image None (p\<lparr>renderer := r\<rparr>) of
             (res, p') \<Rightarrow> (res, doc\<lparr>doc_renderer := Some (renderer p')\<rparr>, p')))"

section \<open>Concrete inputs\<close>

text \<open>
  A cache directory \<open>psd_cache\<close>, a source file \<open>a.psd\<close> whose digest is \<open>h\<close>, and the
  cache entry \<open>psd_cache/h_full.png\<close> of its full composite, in three conditions: older
  than the source, up to date, and up to date but not decodable.
\<close>

definition ex_env :: env where
  "ex_env = \<lparr>file_hash = (\<lambda>p s m. ''h''), png_save = (\<lambda>p i. Inr 7),
            json_dump = (\<lambda>p m. Inr 2), remove_error = (\<lambda>p. None)\<rparr>"

definition ex_env_locked :: env where
  "ex_env_locked = ex_env\<lparr>remove_error := (\<lambda>p. Some (Error ''PermissionError'' ''Permission denied''))\<rparr>"

definition ex_cache :: PSDFileCache where
  "ex_cache = PSDFileCache_init ''psd_cache'' []"

definition ex_bitmap :: image where
  "ex_bitmap = Image ''RGBA'' (2, 2) [0, 0, 0, 0] []"

definition ex_source :: "string \<times> regular_file" where
  "ex_source = (''a.psd'', \<lparr>st_size = 5, st_mtime = 9, st_atime = 9, decodes_to = None\<rparr>)"

definition ex_world_stale :: world where
  "ex_world_stale =
     \<lparr>fs = [ex_source,
            (''psd_cache/h_full.png'',
             \<lparr>st_size = 7, st_mtime = 3, st_atime = 3, decodes_to = Some ex_bitmap\<rparr>)],
      clock = 10, log = []\<rparr>"

definition ex_world_fresh :: world where
  "ex_world_fresh =
     \<lparr>fs = [ex_source,
            (''psd_cache/h_full.png'',
             \<lparr>st_size = 7, st_mtime = 9, st_atime = 9, decodes_to = Some ex_bitmap\<rparr>)],
      clock = 10, log = []\<rparr>"

definition ex_world_corrupt :: world where
  "ex_world_corrupt =
     \<lparr>fs = [ex_source,
            (''psd_cache/h_full.png'',
             \<lparr>st_size = 7, st_mtime = 9, st_atime = 9, decodes_to = None\<rparr>)],
      clock = 10, log = []\<rparr>"

text \<open>A cache directory whose index file alone fills the budget, beside one small image.\<close>

definition ex_world_big_index :: world where
  "ex_world_big_index =
     \<lparr>fs = [(''psd_cache/metadata.json'',
             \<lparr>st_size = 1073741824, st_mtime = 4, st_atime = 4, decodes_to = None\<rparr>),
            (''psd_cache/x.png'',
             \<lparr>st_size = 10, st_mtime = 1, st_atime = 1, decodes_to = Some ex_bitmap\<rparr>)],
      clock = 10, log = []\<rparr>"

text \<open>
  A cache directory holding an old image of exactly 1 GiB and a small newer one; the same
  directory as the sweep finds it after the composite of \<open>a.psd\<close> and the index have been
  written; an environment in which the old image cannot be removed, and one in which the
  cache directory cannot be written.
\<close>

definition ex_old :: "string \<times> regular_file" where
  "ex_old = (''psd_cache/old.png'',
             \<lparr>st_size = 1073741824, st_mtime = 1, st_atime = 1, decodes_to = Some ex_bitmap\<rparr>)"

definition ex_mid :: "string \<times> regular_file" where
  "ex_mid = (''psd_cache/mid.png'',
             \<lparr>st_size = 5, st_mtime = 2, st_atime = 2, decodes_to = Some ex_bitmap\<rparr>)"

definition ex_new :: "string \<times> regular_file" where
  "ex_new = (''psd_cache/h_full.png'',
             \<lparr>st_size = 7, st_mtime = 10, st_atime = 10, decodes_to = Some ex_bitmap\<rparr>)"

definition ex_index :: "string \<times> regular_file" where
  "ex_index = (''psd_cache/metadata.json'',
             \<lparr>st_size = 2, st_mtime = 10, st_atime = 10, decodes_to = None\<rparr>)"

definition ex_world_full :: world where
  "ex_world_full = \<lparr>fs = [ex_source, ex_old, ex_mid], clock = 10, log = []\<rparr>"

definition ex_world_sweep :: world where
  "ex_world_sweep = \<lparr>fs = [ex_source, ex_old, ex_mid, ex_new, ex_index], clock = 10, log = []\<rparr>"

definition ex_env_old_locked :: env where
  "ex_env_old_locked =
     ex_env\<lparr>remove_error :=
              (\<lambda>p. if p = ''psd_cache/old.png''
                   then Some (Error ''PermissionError'' ''Permission denied'') else None)\<rparr>"

definition ex_world_src :: world where
  "ex_world_src = \<lparr>fs = [ex_source], clock = 10, log = []\<rparr>"

definition ex_env_readonly :: env where
  "ex_env_readonly =
     ex_env\<lparr>png_save := (\<lambda>p i. Inl (Error ''PermissionError'' ''Permission denied''))\<rparr>"

text \<open>
  An imaging library in which no call raises, and one that cannot allocate a bitmap; a
  document whose \<open>composite()\<close> returns a bitmap and that has no layers; a renderer without a
  file path; a document of three layers whose middle layer raises when rendered; a document
  without accessors and without layers, and one whose header and only layer have no
  dimensions; the placeholder drawn when no strategy was recorded.
\<close>

definition ex_pil :: pil where
  "ex_pil = \<lparr>new_error = (\<lambda>m sz. None), alpha_composite_error = (\<lambda>c im d. None),
            draw_error = (\<lambda>im. None), load_default_error = None,
            text_error = (\<lambda>im xy line. None)\<rparr>"

definition ex_psd_builtin :: psd_image where
  "ex_psd_builtin =
     \<lparr>type_name = ''PSDImage'', psd_composite = Some (Inr (Some ex_bitmap)), psd_topil = None,
      psd_get_composite_image = None, psd_layers = [], has_layers = False,
      psd_header = Some \<lparr>header_width = Some 2, header_height = Some 2\<rparr>,
      psd_width = Some 2, psd_height = Some 2\<rparr>"

definition ex_renderer :: PSDFullRenderer where
  "ex_renderer = \<lparr>self_filepath = None, self_composite = None, self_loading = False,
                 self_callbacks = []\<rparr>"

definition ex_img_a :: image where "ex_img_a = Image ''RGBA'' (1, 1) [255, 0, 0, 255] []"



definition ex_psd_bare :: psd_image where
  "ex_psd_bare =
     \<lparr>type_name = ''PSDImage'', psd_composite = None, psd_topil = None,
      psd_get_composite_image = None, psd_layers = [], has_layers = True,
      psd_header = Some \<lparr>header_width = Some 2, header_height = Some 2\<rparr>,
      psd_width = None, psd_height = None\<rparr>"

definition ex_psd_dimless :: psd_image where
  "ex_psd_dimless =
     \<lparr>type_name = ''PSDImage'', psd_composite = None, psd_topil = None,
      psd_get_composite_image = None,
      psd_layers = [Layer ''flat'' True False [] 0 0 0 0 (Some (Inr (Some ex_img_a)))],
      has_layers = True,
      psd_header = Some \<lparr>header_width = None, header_height = None\<rparr>,
      psd_width = None, psd_height = None\<rparr>"

definition ex_pil_broken :: pil where
  "ex_pil_broken = ex_pil\<lparr>new_error := (\<lambda>m sz. Some (Error ''MemoryError'' ''out of memory''))\<rparr>"

definition ex_placeholder :: image where
  "ex_placeholder =
     Image ''RGB'' (800, 200) [255, 200, 200]
       [DrawText (10, 10) ''Failed to load PSD file.'' [200, 0, 0],
        DrawText (10, 30) [] [200, 0, 0],
        DrawText (10, 50) ''Tried methods:'' [200, 0, 0],
        DrawText (10, 70) [] [200, 0, 0]]"

text \<open>
  A process that has just built a renderer for the bare document (no cache entry, nothing
  requested yet), a callback behaviour in which callback 3 raises, and a document of one
  group holding two layers, the second named like a top-level layer after the group.
\<close>

definition ex_process :: process where
  "ex_process =
     \<lparr>renderer = fst (PSDFullRenderer_init ex_env ex_psd_bare None (ex_cache, ex_world_src)),
      psd_cache = ex_cache, wld = ex_world_src, started = 0, invoked = [], uncaught = []\<rparr>"

definition ex_cb_error :: "callback \<Rightarrow> image \<Rightarrow> error option" where
  "ex_cb_error cb img = (if cb = 3 then Some (Error ''RuntimeError'' ''widget destroyed'') else None)"

definition ex_tree :: "layer list" where
  "ex_tree =
     [Layer ''group'' True True
        [Layer ''sky'' True False [] 0 0 1 1 None, Layer ''logo'' True False [] 0 0 1 1 None]
        0 0 1 1 None,
      Layer ''logo'' True False [] 0 0 1 1 None]"

definition ex_document :: PSDDocument where
  "ex_document =
     \<lparr>doc_filepath = Some ''a.psd'', doc_psd = Some (ex_psd_bare\<lparr>psd_layers := ex_tree\<rparr>),
      doc_renderer = Some \<lparr>self_filepath = None, self_composite = Some ex_bitmap,
                            self_loading = False, self_callbacks = []\<rparr>\<rparr>"

section \<open>Notions used to state the properties\<close>

text \<open>The file system after the files at the given paths have been removed, one after the other.\<close>

definition delete_all :: "string list \<Rightarrow> filesystem \<Rightarrow> filesystem" where
  "delete_all ps files = fold AList.delete ps files"


text \<open>
  A layer tree with every visibility flag set to true: two trees with the same image under
  \<open>erase_visible\<close> differ in visibility flags only.  \<open>flags\<close> lists name and visibility
  flag of a layer and of everything below it, in document order.
\<close>

fun erase_visible :: "layer \<Rightarrow> layer" where
  "erase_visible (Layer nm vis grp chs l t wd ht tp) =
     Layer nm True grp (map erase_visible chs) l t wd ht tp"

fun flags :: "layer \<Rightarrow> (string \<times> bool) list" where
  "flags (Layer nm vis grp chs l t wd ht tp) = (nm, vis) # concat (map flags chs)"

section \<open>Files and paths\<close>

lemma path_name_join: "CHR ''/'' \<notin> set n \<Longrightarrow> path_name (path_join d n) = n"
proof -
  assume "CHR ''/'' \<notin> set n"
  then have all: "takeWhile (\<lambda>c. c \<noteq> CHR ''/'') (rev n) = rev n"
    by (auto simp: takeWhile_eq_all_conv)
  have "path_name (path_join d n) = rev (takeWhile (\<lambda>c. c \<noteq> CHR ''/'') (rev n))"
    by (simp add: path_name_def path_join_def takeWhile_tail)
  also have "\<dots> = n"
    by (simp only: all rev_rev_ident)
  finally show ?thesis .
qed

lemma under_dir_join: "n \<noteq> [] \<Longrightarrow> under_dir d (path_join d n)"
  by (simp add: under_dir_def path_join_def)

lemma os_remove_map_of:
  "os_remove E p w = Inr w' \<Longrightarrow>
     map_of (fs w') = (map_of (fs w))(p := None) \<and> log w' = log w \<and> clock w' = clock w"
  by (auto simp: os_remove_def delete_conv' split: option.splits)

section \<open>The cache lookup\<close>

text \<open>
  C6, as the code has it.  With \<open>cpath\<close> the computed cache path:
  the lookup returns a bitmap only when a file exists at \<open>cpath\<close>, its modification time is
  not older than the source's, and it decodes to that bitmap, and then nothing changes;
  when the cache file is older than the source the lookup returns absent, and the stale file
  is gone afterwards if \<open>os.remove\<close> succeeded, while a removal that raises is caught and
  logged as a warning and leaves the file system as it was; when the file is up to date but cannot be
  decoded the lookup returns absent, without raising and without touching the file system.
\<close>

theorem get_cached_image_validity:
  assumes "get_cache_path E c w filepath suffix = Inr cpath"
  shows "(\<forall>img w'. get_cached_image E c filepath suffix w = (Inr (Some img), w') \<longrightarrow>
            w' = w \<and>
            (\<exists>cf sf. map_of (fs w) cpath = Some cf \<and> os_stat w filepath = Inr sf \<and>
                     \<not> st_mtime cf < st_mtime sf \<and> decodes_to cf = Some img))
       \<and> (\<forall>cf sf. map_of (fs w) cpath = Some cf \<and> os_stat w filepath = Inr sf \<and>
                  st_mtime cf < st_mtime sf \<longrightarrow>
            fst (get_cached_image E c filepath suffix w) = Inr None \<and>
            (remove_error E cpath = None \<longrightarrow>
               map_of (fs (snd (get_cached_image E c filepath suffix w))) =
                 (map_of (fs w))(cpath := None)) \<and>
            (remove_error E cpath \<noteq> None \<longrightarrow>
               fs (snd (get_cached_image E c filepath suffix w)) = fs w \<and>
               (\<exists>msg. log (snd (get_cached_image E c filepath suffix w)) =
                        log w @ [(WARNING, msg)])))
       \<and> (\<forall>cf sf. map_of (fs w) cpath = Some cf \<and> os_stat w filepath = Inr sf \<and>
                  \<not> st_mtime cf < st_mtime sf \<and> decodes_to cf = None \<longrightarrow>
            fst (get_cached_image E c filepath suffix w) = Inr None \<and>
            fs (snd (get_cached_image E c filepath suffix w)) = fs w)"
  using assms
  by (auto simp: get_cached_image_def os_remove_def delete_conv' logger_def
           split: option.splits sum.splits if_splits)

lemma ex_cache_path:
  "get_cache_path ex_env ex_cache ex_world_stale ''a.psd'' ''_full'' = Inr ''psd_cache/h_full.png''"
  "get_cache_path ex_env_locked ex_cache ex_world_stale ''a.psd'' ''_full'' = Inr ''psd_cache/h_full.png''"
  "get_cache_path ex_env ex_cache ex_world_fresh ''a.psd'' ''_full'' = Inr ''psd_cache/h_full.png''"
  "get_cache_path ex_env ex_cache ex_world_corrupt ''a.psd'' ''_full'' = Inr ''psd_cache/h_full.png''"
  by (simp_all add: get_cache_path_def get_file_hash_def os_stat_def ex_env_def ex_env_locked_def
        ex_cache_def PSDFileCache_init_def path_join_def ex_world_stale_def ex_world_fresh_def
        ex_world_corrupt_def ex_source_def)

theorem get_cached_image_validity_witness:
  "get_cache_path ex_env ex_cache ex_world_fresh ''a.psd'' ''_full'' = Inr ''psd_cache/h_full.png''
   \<and> get_cached_image ex_env ex_cache ''a.psd'' ''_full'' ex_world_fresh
       = (Inr (Some ex_bitmap), ex_world_fresh)
   \<and> st_mtime (snd ex_source) \<le> 9
   \<and> fst (get_cached_image ex_env ex_cache ''a.psd'' ''_full'' ex_world_stale) = Inr None
   \<and> map_of (fs (snd (get_cached_image ex_env ex_cache ''a.psd'' ''_full'' ex_world_stale)))
       ''psd_cache/h_full.png'' = None
   \<and> fst (get_cached_image ex_env_locked ex_cache ''a.psd'' ''_full'' ex_world_stale) = Inr None
   \<and> fs (snd (get_cached_image ex_env_locked ex_cache ''a.psd'' ''_full'' ex_world_stale))
       = fs ex_world_stale
   \<and> fst (get_cached_image ex_env ex_cache ''a.psd'' ''_full'' ex_world_corrupt) = Inr None
   \<and> fs (snd (get_cached_image ex_env ex_cache ''a.psd'' ''_full'' ex_world_corrupt))
       = fs ex_world_corrupt"
  using get_cached_image_validity [OF ex_cache_path(1)]
        get_cached_image_validity [OF ex_cache_path(2)]
        get_cached_image_validity [OF ex_cache_path(3)]
        get_cached_image_validity [OF ex_cache_path(4)]
  by (simp add: get_cached_image_def get_cache_path_def get_file_hash_def os_stat_def
        os_remove_def logger_def ex_env_def ex_env_locked_def ex_cache_def PSDFileCache_init_def
        path_join_def ex_world_stale_def ex_world_fresh_def ex_world_corrupt_def ex_source_def)

text \<open>
  C6 as stated fails where the removal of the stale file raises: the cache file is older
  than the source, the lookup returns absent, and the stale file is still there.
\<close>

theorem get_cached_image_stale_kept:
  "get_cache_path ex_env_locked ex_cache ex_world_stale ''a.psd'' ''_full''
     = Inr ''psd_cache/h_full.png''
   \<and> map_of (fs ex_world_stale) ''psd_cache/h_full.png''
       = Some \<lparr>st_size = 7, st_mtime = 3, st_atime = 3, decodes_to = Some ex_bitmap\<rparr>
   \<and> os_stat ex_world_stale ''a.psd''
       = Inr \<lparr>st_size = 5, st_mtime = 9, st_atime = 9, decodes_to = None\<rparr>
   \<and> fst (get_cached_image ex_env_locked ex_cache ''a.psd'' ''_full'' ex_world_stale) = Inr None
   \<and> map_of (fs (snd (get_cached_image ex_env_locked ex_cache ''a.psd'' ''_full'' ex_world_stale)))
       ''psd_cache/h_full.png'' \<noteq> None"
  by (simp add: get_cached_image_def get_cache_path_def get_file_hash_def os_stat_def
        os_remove_def logger_def ex_env_def ex_env_locked_def ex_cache_def PSDFileCache_init_def
        path_join_def ex_world_stale_def ex_source_def)

section \<open>The eviction sweep\<close>

lemma logger_fs [simp]: "fs (logger lv m w) = fs w"
  by (simp add: logger_def)

lemma path_suffix_metadata: "path_suffix (path_join d ''metadata.json'') = ''.json''"
  by (simp add: path_suffix_def path_name_join Let_def)

lemma os_remove_fs:
  "os_remove E p w = Inr w' \<Longrightarrow> fs w' = AList.delete p (fs w) \<and> remove_error E p = None"
  by (auto simp: os_remove_def split: option.splits)

lemma os_remove_Inl:
  "os_remove E p w = Inl e \<Longrightarrow> map_of (fs w) p = None \<or> remove_error E p = Some e"
  by (auto simp: os_remove_def split: option.splits)

lemma evict_loop_frame:
  "map_of (fs (snd (evict_loop E mx files tot w))) p = map_of (fs w) p \<or>
   (map_of (fs (snd (evict_loop E mx files tot w))) p = None \<and> p \<in> fst ` set files)"
proof (induction files arbitrary: tot w)
  case Nil
  then show ?case by simp
next
  case (Cons x rest)
  obtain f a where x: "x = (f, a)" by (cases x)
  show ?case
  proof (cases "tot \<le> int mx")
    case True
    then show ?thesis by (simp add: x)
  next
    case over: False
    show ?thesis
    proof (cases "os_stat w f")
      case (Inl e)
      with over Cons.IH[of tot "logger WARNING (''Failed to clean up cache file '' @ f @ '': '' @ exc_str e) w"]
      show ?thesis by (auto simp: x)
    next
      case (Inr st)
      show ?thesis
      proof (cases "os_remove E f w")
        case (Inl e)
        with over Inr Cons.IH[of tot "logger WARNING (''Failed to clean up cache file '' @ f @ '': '' @ exc_str e) w"]
        show ?thesis by (auto simp: x)
      next
        case rm: (Inr w')
        from os_remove_fs[OF rm] have "map_of (fs w') = (map_of (fs w))(f := None)"
          by (simp add: delete_conv')
        with over Inr rm Cons.IH[of "tot - int (st_size st)" w']
        show ?thesis by (auto simp: x)
      qed
    qed
  qed
qed

lemma candidates_paths:
  "p \<in> fst ` set (candidates d files) \<Longrightarrow>
     under_dir d p \<and> path_suffix p \<in> {''.png'', ''.jpg'', ''.jpeg''}"
  by (auto simp: candidates_def glob_files_def)

lemma cleanup_cache_frame:
  "map_of (fs (cleanup_cache E c w)) p = map_of (fs w) p \<or>
   (map_of (fs (cleanup_cache E c w)) p = None \<and> under_dir (cache_dir c) p \<and>
    path_suffix p \<in> {''.png'', ''.jpg'', ''.jpeg''})"
proof (cases "total_size (cache_dir c) (fs w) \<le> int (max_cache_size c)")
  case True
  then show ?thesis by (simp add: cleanup_cache_def)
next
  case False
  then have eq: "cleanup_cache E c w =
      snd (evict_loop E (max_cache_size c) (files_by_atime (cache_dir c) (fs w))
             (total_size (cache_dir c) (fs w)) w)"
    by (simp add: cleanup_cache_def Let_def)
  from evict_loop_frame[of E "max_cache_size c" "files_by_atime (cache_dir c) (fs w)"
        "total_size (cache_dir c) (fs w)" w p]
  show ?thesis
    unfolding eq using candidates_paths[of p "cache_dir c" "fs w"]
    by (auto simp: files_by_atime_def)
qed

lemma total_size_delete:
  "distinct (map fst files) \<Longrightarrow> map_of files p = Some f \<Longrightarrow> under_dir d p \<Longrightarrow>
     total_size d files = int (st_size f) + total_size d (AList.delete p files)"
proof (induction files)
  case Nil
  then show ?case by simp
next
  case (Cons x xs)
  obtain q g where x: "x = (q, g)" by (cases x)
  show ?case
  proof (cases "q = p")
    case True
    with Cons.prems x have "p \<notin> fst ` set xs" "g = f" by auto
    then show ?thesis using True x Cons.prems(3)
      by (simp add: total_size_def glob_files_def)
  next
    case False
    with Cons x show ?thesis
      by (simp add: total_size_def glob_files_def)
  qed
qed

lemma total_size_delete_outside:
  "\<not> under_dir d p \<Longrightarrow> total_size d (AList.delete p files) = total_size d files"
  by (induction files) (auto simp: total_size_def glob_files_def)


lemma delete_all_simps [simp]:
  "delete_all [] files = files"
  "delete_all (p # ps) files = delete_all ps (AList.delete p files)"
  by (simp_all add: delete_all_def)

lemma evict_loop_char:
  assumes "distinct (map fst (fs w))" and "distinct (map fst files)"
    and "\<forall>p\<in>fst ` set files. map_of (fs w) p \<noteq> None \<and> under_dir d p"
    and "tot = total_size d (fs w)"
  shows "\<exists>k\<le>length files.
     fs (snd (evict_loop E mx files tot w))
       = delete_all (filter (\<lambda>p. remove_error E p = None) (take k (map fst files))) (fs w)
   \<and> (\<forall>j<k. int mx < total_size d
         (delete_all (filter (\<lambda>p. remove_error E p = None) (take j (map fst files))) (fs w)))
   \<and> (k = length files \<or> total_size d (fs (snd (evict_loop E mx files tot w))) \<le> int mx)"
  using assms
proof (induction files arbitrary: tot w)
  case Nil
  then show ?case by simp
next
  case (Cons x rest)
  obtain f a where x: "x = (f, a)" by (cases x)
  let ?ok = "\<lambda>p. remove_error E p = None"
  show ?case
  proof (cases "tot \<le> int mx")
    case True
    with Cons.prems(4) have "fs (snd (evict_loop E mx (x # rest) tot w)) = delete_all (filter ?ok (take 0 (map fst (x # rest)))) (fs w)
      \<and> (\<forall>j<(0::nat). int mx < total_size d (delete_all (filter ?ok (take j (map fst (x # rest)))) (fs w)))
      \<and> (0 = length (x # rest) \<or> total_size d (fs (snd (evict_loop E mx (x # rest) tot w))) \<le> int mx)"
      by (simp add: x)
    then show ?thesis by blast
  next
    case over: False
    from Cons.prems(3) x obtain st where st: "map_of (fs w) f = Some st" and ud: "under_dir d f"
      by auto
    then have stat: "os_stat w f = Inr st" by (simp add: os_stat_def)
    from Cons.prems(2) x have frest: "f \<notin> fst ` set rest" and drest: "distinct (map fst rest)"
      by auto
    show ?thesis
    proof (cases "os_remove E f w")
      case (Inl e)
      with st have nok: "remove_error E f = Some e" by (auto simp: os_remove_def split: option.splits)
      let ?w1 = "logger WARNING (''Failed to clean up cache file '' @ f @ '': '' @ exc_str e) w"
      have ev: "evict_loop E mx (x # rest) tot w = evict_loop E mx rest tot ?w1"
        using over stat Inl by (simp add: x)
      have "\<exists>k\<le>length rest.
         fs (snd (evict_loop E mx rest tot ?w1)) = delete_all (filter ?ok (take k (map fst rest))) (fs ?w1)
       \<and> (\<forall>j<k. int mx < total_size d (delete_all (filter ?ok (take j (map fst rest))) (fs ?w1)))
       \<and> (k = length rest \<or> total_size d (fs (snd (evict_loop E mx rest tot ?w1))) \<le> int mx)"
        using Cons.prems drest by (intro Cons.IH) auto
      then obtain k where k: "k \<le> length rest"
        "fs (snd (evict_loop E mx rest tot ?w1)) = delete_all (filter ?ok (take k (map fst rest))) (fs w)"
        "\<forall>j<k. int mx < total_size d (delete_all (filter ?ok (take j (map fst rest))) (fs w))"
        "k = length rest \<or> total_size d (fs (snd (evict_loop E mx rest tot ?w1))) \<le> int mx"
        by auto
      have all: "\<forall>j<Suc k. int mx < total_size d (delete_all (filter ?ok (take j (map fst (x # rest)))) (fs w))"
      proof (intro allI impI)
        fix j assume "j < Suc k"
        show "int mx < total_size d (delete_all (filter ?ok (take j (map fst (x # rest)))) (fs w))"
        proof (cases j)
          case 0
          with over Cons.prems(4) show ?thesis by simp
        next
          case (Suc j')
          with \<open>j < Suc k\<close> k(3) nok show ?thesis by (simp add: x)
        qed
      qed
      have "Suc k \<le> length (x # rest)
        \<and> fs (snd (evict_loop E mx (x # rest) tot w)) = delete_all (filter ?ok (take (Suc k) (map fst (x # rest)))) (fs w)
        \<and> (\<forall>j<Suc k. int mx < total_size d (delete_all (filter ?ok (take j (map fst (x # rest)))) (fs w)))
        \<and> (Suc k = length (x # rest) \<or> total_size d (fs (snd (evict_loop E mx (x # rest) tot w))) \<le> int mx)"
        unfolding ev using k all nok by (simp add: x)
      then show ?thesis by blast
    next
      case rm: (Inr w')
      from os_remove_fs[OF rm] have fsw': "fs w' = AList.delete f (fs w)" and ok: "?ok f" by auto
      have ev: "evict_loop E mx (x # rest) tot w = evict_loop E mx rest (tot - int (st_size st)) w'"
        using over stat rm by (simp add: x)
      have tot': "tot - int (st_size st) = total_size d (fs w')"
        using total_size_delete[OF Cons.prems(1) st ud] Cons.prems(4) fsw' by simp
      have d': "distinct (map fst (fs w'))"
        using Cons.prems(1) fsw' by (simp add: distinct_delete)
      have dom': "\<forall>p\<in>fst ` set rest. map_of (fs w') p \<noteq> None \<and> under_dir d p"
        using Cons.prems(3) frest fsw' by (auto simp: delete_conv')
      have "\<exists>k\<le>length rest.
         fs (snd (evict_loop E mx rest (tot - int (st_size st)) w')) = delete_all (filter ?ok (take k (map fst rest))) (fs w')
       \<and> (\<forall>j<k. int mx < total_size d (delete_all (filter ?ok (take j (map fst rest))) (fs w')))
       \<and> (k = length rest \<or> total_size d (fs (snd (evict_loop E mx rest (tot - int (st_size st)) w'))) \<le> int mx)"
        using d' drest dom' tot' by (intro Cons.IH)
      then obtain k where k: "k \<le> length rest"
        "fs (snd (evict_loop E mx rest (tot - int (st_size st)) w')) = delete_all (filter ?ok (take k (map fst rest))) (fs w')"
        "\<forall>j<k. int mx < total_size d (delete_all (filter ?ok (take j (map fst rest))) (fs w'))"
        "k = length rest \<or> total_size d (fs (snd (evict_loop E mx rest (tot - int (st_size st)) w'))) \<le> int mx"
        by auto
      have all: "\<forall>j<Suc k. int mx < total_size d (delete_all (filter ?ok (take j (map fst (x # rest)))) (fs w))"
      proof (intro allI impI)
        fix j assume "j < Suc k"
        show "int mx < total_size d (delete_all (filter ?ok (take j (map fst (x # rest)))) (fs w))"
        proof (cases j)
          case 0
          with over Cons.prems(4) show ?thesis by simp
        next
          case (Suc j')
          with \<open>j < Suc k\<close> k(3) ok fsw' show ?thesis by (simp add: x)
        qed
      qed
      have "Suc k \<le> length (x # rest)
        \<and> fs (snd (evict_loop E mx (x # rest) tot w)) = delete_all (filter ?ok (take (Suc k) (map fst (x # rest)))) (fs w)
        \<and> (\<forall>j<Suc k. int mx < total_size d (delete_all (filter ?ok (take j (map fst (x # rest)))) (fs w)))
        \<and> (Suc k = length (x # rest) \<or> total_size d (fs (snd (evict_loop E mx (x # rest) tot w))) \<le> int mx)"
        unfolding ev using k all ok fsw' by (simp add: x)
      then show ?thesis by blast
    qed
  qed
qed

text \<open>
  C10.  Whatever the sweep of a cache built by the constructor changes is the removal of a
  file below the cache directory whose suffix is \<open>.png\<close>, \<open>.jpg\<close> or \<open>.jpeg\<close>; the index
  file \<open>metadata.json\<close> is as it was; yet the size of the index file is part of the total
  (for a file system without duplicate paths the total is that size plus the total of the
  other files), and the sweep changes something only if that total exceeds 1 GiB.
\<close>

theorem eviction_spares_metadata:
  "(\<forall>p. map_of (fs (cleanup_cache E (PSDFileCache_init dir md) w)) p = map_of (fs w) p \<or>
        (map_of (fs (cleanup_cache E (PSDFileCache_init dir md) w)) p = None \<and> under_dir dir p \<and>
         path_suffix p \<in> {''.png'', ''.jpg'', ''.jpeg''}))
   \<and> metadata_file (PSDFileCache_init dir md) = path_join dir ''metadata.json''
   \<and> map_of (fs (cleanup_cache E (PSDFileCache_init dir md) w)) (path_join dir ''metadata.json'')
       = map_of (fs w) (path_join dir ''metadata.json'')
   \<and> (distinct (map fst (fs w)) \<and> map_of (fs w) (path_join dir ''metadata.json'') = Some m \<longrightarrow>
        total_size dir (fs w)
          = int (st_size m) + total_size dir (AList.delete (path_join dir ''metadata.json'') (fs w)))
   \<and> (cleanup_cache E (PSDFileCache_init dir md) w \<noteq> w \<longrightarrow> 1073741824 < total_size dir (fs w))"
proof -
  let ?c = "PSDFileCache_init dir md"
  have cd: "cache_dir ?c = dir" and mx: "max_cache_size ?c = 1073741824"
    by (simp_all add: PSDFileCache_init_def)
  have frame: "\<And>p. map_of (fs (cleanup_cache E ?c w)) p = map_of (fs w) p \<or>
        (map_of (fs (cleanup_cache E ?c w)) p = None \<and> under_dir dir p \<and>
         path_suffix p \<in> {''.png'', ''.jpg'', ''.jpeg''})"
    using cleanup_cache_frame[of E ?c w] by (simp only: cd)
  have meta: "map_of (fs (cleanup_cache E ?c w)) (path_join dir ''metadata.json'')
       = map_of (fs w) (path_join dir ''metadata.json'')"
    using frame[of "path_join dir ''metadata.json''"] by (auto simp: path_suffix_metadata)
  have counted: "distinct (map fst (fs w)) \<and> map_of (fs w) (path_join dir ''metadata.json'') = Some m \<longrightarrow>
        total_size dir (fs w)
          = int (st_size m) + total_size dir (AList.delete (path_join dir ''metadata.json'') (fs w))"
  proof (intro impI, elim conjE)
    assume d: "distinct (map fst (fs w))"
      and f: "map_of (fs w) (path_join dir ''metadata.json'') = Some m"
    have u: "under_dir dir (path_join dir ''metadata.json'')"
      by (rule under_dir_join) simp
    show "total_size dir (fs w)
          = int (st_size m) + total_size dir (AList.delete (path_join dir ''metadata.json'') (fs w))"
      by (rule total_size_delete[OF d f u])
  qed
  have decide: "cleanup_cache E ?c w \<noteq> w \<longrightarrow> 1073741824 < total_size dir (fs w)"
    by (auto simp: cleanup_cache_def cd mx Let_def)
  show ?thesis
    using frame meta counted decide by (simp add: PSDFileCache_init_def)
qed

theorem eviction_spares_metadata_witness:
  "distinct (map fst (fs ex_world_big_index))
   \<and> map_of (fs ex_world_big_index) (path_join ''psd_cache'' ''metadata.json'')
       = Some \<lparr>st_size = 1073741824, st_mtime = 4, st_atime = 4, decodes_to = None\<rparr>
   \<and> total_size ''psd_cache'' (fs ex_world_big_index) = 1073741834
   \<and> cleanup_cache ex_env (PSDFileCache_init ''psd_cache'' []) ex_world_big_index \<noteq> ex_world_big_index
   \<and> map_of (fs (cleanup_cache ex_env (PSDFileCache_init ''psd_cache'' []) ex_world_big_index))
        ''psd_cache/x.png'' = None
   \<and> map_of (fs (cleanup_cache ex_env (PSDFileCache_init ''psd_cache'' []) ex_world_big_index))
        ''psd_cache/metadata.json''
       = Some \<lparr>st_size = 1073741824, st_mtime = 4, st_atime = 4, decodes_to = None\<rparr>"
  using eviction_spares_metadata [of ex_env "''psd_cache''" "[]" ex_world_big_index
          "\<lparr>st_size = 1073741824, st_mtime = 4, st_atime = 4, decodes_to = None\<rparr>"]
  by (simp add: cleanup_cache_def total_size_def glob_files_def under_dir_def candidates_def
        files_by_atime_def path_suffix_def path_name_def path_join_def os_stat_def os_remove_def ex_env_def
        PSDFileCache_init_def ex_world_big_index_def Let_def)

section \<open>The sweep in the order of last access\<close>

lemmas ex_defs = ex_old_def ex_mid_def ex_new_def ex_index_def ex_world_full_def ex_world_sweep_def
  ex_env_old_locked_def ex_env_def ex_cache_def ex_source_def PSDFileCache_init_def

lemmas cache_defs = save_image_to_cache_def get_cache_path_def get_file_hash_def os_stat_def
  os_remove_def write_file_def save_metadata_def cleanup_cache_def total_size_def glob_files_def
  under_dir_def candidates_def files_by_atime_def path_suffix_def path_name_def path_join_def
  logger_def Let_def

lemma candidates_keys: "map fst (candidates d files)
   = map fst (filter (\<lambda>(p, f). path_suffix p \<in> set [''.png'', ''.jpg'', ''.jpeg'']) (glob_files d files))"
  by (simp add: candidates_def comp_def case_prod_beta)

lemma candidates_distinct:
  "distinct (map fst files) \<Longrightarrow> distinct (map fst (candidates d files))"
  unfolding candidates_keys glob_files_def by (intro distinct_map_filter)

lemma candidates_present:
  "p \<in> fst ` set (candidates d files) \<Longrightarrow> map_of files p \<noteq> None"
proof -
  assume "p \<in> fst ` set (candidates d files)"
  then have "p \<in> set (map fst (candidates d files))" by simp
  then have "p \<in> fst ` set files"
    unfolding candidates_keys glob_files_def by auto
  then show ?thesis by (simp add: map_of_eq_None_iff)
qed

lemma files_by_atime_set [simp]: "set (files_by_atime d files) = set (candidates d files)"
  by (simp add: files_by_atime_def)

lemma files_by_atime_sorted: "sorted (map snd (files_by_atime d files))"
  by (simp add: files_by_atime_def)

lemma files_by_atime_distinct:
  "distinct (map fst files) \<Longrightarrow> distinct (map fst (files_by_atime d files))"
proof -
  assume "distinct (map fst files)"
  then have "distinct (map fst (candidates d files))" by (rule candidates_distinct)
  then have "distinct (candidates d files) \<and> inj_on fst (set (candidates d files))"
    by (simp add: distinct_map)
  then show ?thesis
    by (simp add: distinct_map files_by_atime_def)
qed

lemma candidates_delete:
  "candidates d (AList.delete p files) = filter (\<lambda>(q, a). q \<noteq> p) (candidates d files)"
  by (induction files) (auto simp: candidates_def glob_files_def)

lemma candidates_delete_all:
  "candidates d (delete_all ps files) = filter (\<lambda>(q, a). q \<notin> set ps) (candidates d files)"
proof (induction ps arbitrary: files)
  case Nil
  then show ?case by simp
next
  case (Cons p ps)
  have "filter (\<lambda>(q, a). q \<notin> set ps) (filter (\<lambda>(q, a). q \<noteq> p) (candidates d files))
      = filter (\<lambda>(q, a). q \<notin> set (p # ps)) (candidates d files)"
    by (auto intro: filter_cong)
  with Cons show ?case by (simp add: candidates_delete)
qed

lemma cleanup_cache_sweep:
  assumes d: "distinct (map fst (fs w))"
    and over: "int (max_cache_size c) < total_size (cache_dir c) (fs w)"
  shows "\<exists>k\<le>length (files_by_atime (cache_dir c) (fs w)).
     fs (cleanup_cache E c w)
       = delete_all (filter (\<lambda>p. remove_error E p = None)
                       (map fst (take k (files_by_atime (cache_dir c) (fs w))))) (fs w)
   \<and> (\<forall>j<k. int (max_cache_size c) < total_size (cache_dir c)
         (delete_all (filter (\<lambda>p. remove_error E p = None)
                        (map fst (take j (files_by_atime (cache_dir c) (fs w))))) (fs w)))
   \<and> (k = length (files_by_atime (cache_dir c) (fs w))
        \<or> total_size (cache_dir c) (fs (cleanup_cache E c w)) \<le> int (max_cache_size c))"
proof -
  let ?S = "files_by_atime (cache_dir c) (fs w)"
  have eq: "cleanup_cache E c w =
      snd (evict_loop E (max_cache_size c) ?S (total_size (cache_dir c) (fs w)) w)"
    using over by (simp add: cleanup_cache_def Let_def)
  have dom: "\<forall>p\<in>fst ` set ?S. map_of (fs w) p \<noteq> None \<and> under_dir (cache_dir c) p"
    using candidates_present[of _ "cache_dir c" "fs w"] candidates_paths[of _ "cache_dir c" "fs w"]
    by auto
  from evict_loop_char[OF d files_by_atime_distinct[OF d] dom refl, of E "max_cache_size c"]
  show ?thesis
    unfolding eq by (simp add: take_map)
qed


lemma write_file_map_of: "map_of (fs (write_file p f w)) = (map_of (fs w))(p \<mapsto> f)"
  by (simp add: write_file_def update_conv')

lemma write_file_clock [simp]: "clock (write_file p f w) = clock w"
  by (simp add: write_file_def)

lemma save_image_to_cache_eq:
  assumes gcp: "get_cache_path E c w fp sfx = Inr cpath" and png: "png_save E cpath img = Inr n"
  shows "\<exists>h.
     get_file_hash E (write_file cpath
        \<lparr>st_size = n, st_mtime = clock w, st_atime = clock w, decodes_to = Some img\<rparr> w) fp = Inr h
   \<and> save_image_to_cache E c img fp sfx w =
       (c\<lparr>metadata := AList.update (h @ sfx)
             \<lparr>source_path = fp, cache_path = cpath, size_bytes = n, created_at = clock w,
              last_accessed = clock w\<rparr> (metadata c)\<rparr>,
        cleanup_cache E
          (c\<lparr>metadata := AList.update (h @ sfx)
             \<lparr>source_path = fp, cache_path = cpath, size_bytes = n, created_at = clock w,
              last_accessed = clock w\<rparr> (metadata c)\<rparr>)
          (save_metadata E
             (c\<lparr>metadata := AList.update (h @ sfx)
                \<lparr>source_path = fp, cache_path = cpath, size_bytes = n, created_at = clock w,
                 last_accessed = clock w\<rparr> (metadata c)\<rparr>)
             (write_file cpath
                \<lparr>st_size = n, st_mtime = clock w, st_atime = clock w, decodes_to = Some img\<rparr> w)))"
proof -
  let ?w1 = "write_file cpath
        \<lparr>st_size = n, st_mtime = clock w, st_atime = clock w, decodes_to = Some img\<rparr> w"
  from gcp obtain sf where "map_of (fs w) fp = Some sf"
    by (auto simp: get_cache_path_def get_file_hash_def os_stat_def split: sum.splits option.splits)
  then have "map_of (fs ?w1) fp \<noteq> None"
    by (simp add: write_file_map_of)
  then obtain h where h: "get_file_hash E ?w1 fp = Inr h"
    by (auto simp: get_file_hash_def os_stat_def split: option.splits)
  show ?thesis
    using gcp png h by (intro exI[of _ h]) (simp add: save_image_to_cache_def Let_def)
qed

lemma save_image_to_cache_sweeps:
  assumes gcp: "get_cache_path E c w fp sfx = Inr cpath" and png: "png_save E cpath img = Inr n"
  shows "\<exists>md'. save_image_to_cache E c img fp sfx w =
       (c\<lparr>metadata := md'\<rparr>,
        cleanup_cache E (c\<lparr>metadata := md'\<rparr>)
          (save_metadata E (c\<lparr>metadata := md'\<rparr>)
             (write_file cpath
                \<lparr>st_size = n, st_mtime = clock w, st_atime = clock w, decodes_to = Some img\<rparr> w)))"
  using save_image_to_cache_eq[OF gcp png] by blast

text \<open>
  C7, as the code has it.  A call of \<open>save_image_to_cache\<close> for which the cache path
  could be computed and the PNG was written ends with the eviction sweep.  On a file
  system without duplicate paths the sweep does nothing while the total size of all files
  below the cache directory is within the budget; otherwise it walks the \<open>.png\<close>,
  \<open>.jpg\<close> and \<open>.jpeg\<close> files in ascending order of last access: for some \<open>k\<close> the files
  removed are those of the first \<open>k\<close> whose removal does not raise, the running total was
  above the budget before each of the \<open>k\<close> steps, and the walk ended because the list was
  exhausted or the total had come within the budget.  When no removal raises, the files
  removed are exactly the first \<open>k\<close>, each last accessed no later than any image kept, and
  afterwards the total is within the budget or no image file is left.
\<close>

theorem eviction_sweep:
  assumes d: "distinct (map fst (fs w))"
  shows
   "(get_cache_path E cin win fp sfx = Inr cpath \<and> png_save E cpath img = Inr n \<longrightarrow>
       (\<exists>c' w2. save_image_to_cache E cin img fp sfx win = (c', cleanup_cache E c' w2) \<and>
                cache_dir c' = cache_dir cin \<and> max_cache_size c' = max_cache_size cin))
    \<and> sorted (map snd (files_by_atime (cache_dir c) (fs w)))
    \<and> set (files_by_atime (cache_dir c) (fs w)) = set (candidates (cache_dir c) (fs w))
    \<and> (total_size (cache_dir c) (fs w) \<le> int (max_cache_size c) \<longrightarrow> cleanup_cache E c w = w)
    \<and> (int (max_cache_size c) < total_size (cache_dir c) (fs w) \<longrightarrow>
        (\<exists>k\<le>length (files_by_atime (cache_dir c) (fs w)).
           fs (cleanup_cache E c w)
             = delete_all (filter (\<lambda>p. remove_error E p = None)
                             (map fst (take k (files_by_atime (cache_dir c) (fs w))))) (fs w)
         \<and> (\<forall>j<k. int (max_cache_size c) < total_size (cache_dir c)
               (delete_all (filter (\<lambda>p. remove_error E p = None)
                              (map fst (take j (files_by_atime (cache_dir c) (fs w))))) (fs w)))
         \<and> (k = length (files_by_atime (cache_dir c) (fs w))
              \<or> total_size (cache_dir c) (fs (cleanup_cache E c w)) \<le> int (max_cache_size c))))
    \<and> (int (max_cache_size c) < total_size (cache_dir c) (fs w) \<and>
        (\<forall>p\<in>fst ` set (candidates (cache_dir c) (fs w)). remove_error E p = None) \<longrightarrow>
        (\<exists>k\<le>length (files_by_atime (cache_dir c) (fs w)).
           fs (cleanup_cache E c w)
             = delete_all (map fst (take k (files_by_atime (cache_dir c) (fs w)))) (fs w)
         \<and> (\<forall>a\<in>snd ` set (take k (files_by_atime (cache_dir c) (fs w))).
              \<forall>b\<in>snd ` set (drop k (files_by_atime (cache_dir c) (fs w))). a \<le> b)
         \<and> (\<forall>j<k. int (max_cache_size c) < total_size (cache_dir c)
               (delete_all (map fst (take j (files_by_atime (cache_dir c) (fs w)))) (fs w)))
         \<and> (total_size (cache_dir c) (fs (cleanup_cache E c w)) \<le> int (max_cache_size c)
              \<or> candidates (cache_dir c) (fs (cleanup_cache E c w)) = [])))"
proof -
  let ?S = "files_by_atime (cache_dir c) (fs w)"
  let ?ok = "\<lambda>p. remove_error E p = None"
  have bridge: "get_cache_path E cin win fp sfx = Inr cpath \<and> png_save E cpath img = Inr n \<longrightarrow>
       (\<exists>c' w2. save_image_to_cache E cin img fp sfx win = (c', cleanup_cache E c' w2) \<and>
                cache_dir c' = cache_dir cin \<and> max_cache_size c' = max_cache_size cin)"
  proof (intro impI, elim conjE)
    assume g: "get_cache_path E cin win fp sfx = Inr cpath" and p: "png_save E cpath img = Inr n"
    from save_image_to_cache_sweeps[OF g p] obtain md' w2 where
      "save_image_to_cache E cin img fp sfx win
         = (cin\<lparr>metadata := md'\<rparr>, cleanup_cache E (cin\<lparr>metadata := md'\<rparr>) w2)"
      by blast
    then show "\<exists>c' w2. save_image_to_cache E cin img fp sfx win = (c', cleanup_cache E c' w2) \<and>
                cache_dir c' = cache_dir cin \<and> max_cache_size c' = max_cache_size cin"
      by (intro exI[of _ "cin\<lparr>metadata := md'\<rparr>"] exI[of _ w2]) simp
  qed
  have within: "total_size (cache_dir c) (fs w) \<le> int (max_cache_size c) \<longrightarrow> cleanup_cache E c w = w"
    by (simp add: cleanup_cache_def)
  have general: "int (max_cache_size c) < total_size (cache_dir c) (fs w) \<longrightarrow>
        (\<exists>k\<le>length ?S.
           fs (cleanup_cache E c w) = delete_all (filter ?ok (map fst (take k ?S))) (fs w)
         \<and> (\<forall>j<k. int (max_cache_size c) < total_size (cache_dir c)
               (delete_all (filter ?ok (map fst (take j ?S))) (fs w)))
         \<and> (k = length ?S \<or> total_size (cache_dir c) (fs (cleanup_cache E c w)) \<le> int (max_cache_size c)))"
    using cleanup_cache_sweep[OF d, of c E] by blast
  have lru: "int (max_cache_size c) < total_size (cache_dir c) (fs w) \<and>
        (\<forall>p\<in>fst ` set (candidates (cache_dir c) (fs w)). remove_error E p = None) \<longrightarrow>
        (\<exists>k\<le>length ?S.
           fs (cleanup_cache E c w) = delete_all (map fst (take k ?S)) (fs w)
         \<and> (\<forall>a\<in>snd ` set (take k ?S). \<forall>b\<in>snd ` set (drop k ?S). a \<le> b)
         \<and> (\<forall>j<k. int (max_cache_size c) < total_size (cache_dir c)
               (delete_all (map fst (take j ?S)) (fs w)))
         \<and> (total_size (cache_dir c) (fs (cleanup_cache E c w)) \<le> int (max_cache_size c)
              \<or> candidates (cache_dir c) (fs (cleanup_cache E c w)) = []))"
  proof (intro impI, elim conjE)
    assume over: "int (max_cache_size c) < total_size (cache_dir c) (fs w)"
      and ok: "\<forall>p\<in>fst ` set (candidates (cache_dir c) (fs w)). remove_error E p = None"
    from cleanup_cache_sweep[OF d over, of E] obtain k where k: "k \<le> length ?S"
      "fs (cleanup_cache E c w) = delete_all (filter ?ok (map fst (take k ?S))) (fs w)"
      "\<forall>j<k. int (max_cache_size c) < total_size (cache_dir c)
               (delete_all (filter ?ok (map fst (take j ?S))) (fs w))"
      "k = length ?S \<or> total_size (cache_dir c) (fs (cleanup_cache E c w)) \<le> int (max_cache_size c)"
      by blast
    have allok: "\<And>j. filter ?ok (map fst (take j ?S)) = map fst (take j ?S)"
    proof -
      fix j
      have "set (take j ?S) \<subseteq> set (candidates (cache_dir c) (fs w))"
        using set_take_subset[of j ?S] by simp
      with ok have "\<forall>p\<in>set (map fst (take j ?S)). remove_error E p = None"
        by auto
      then show "filter ?ok (map fst (take j ?S)) = map fst (take j ?S)"
        by (simp add: filter_id_conv)
    qed
    have "sorted (map snd (take k ?S) @ map snd (drop k ?S))"
      using files_by_atime_sorted[of "cache_dir c" "fs w"]
      by (simp only: map_append[symmetric] append_take_drop_id)
    then have ord: "\<forall>a\<in>snd ` set (take k ?S). \<forall>b\<in>snd ` set (drop k ?S). a \<le> b"
      by (auto simp: sorted_append)
    have rest: "total_size (cache_dir c) (fs (cleanup_cache E c w)) \<le> int (max_cache_size c)
              \<or> candidates (cache_dir c) (fs (cleanup_cache E c w)) = []"
    proof (cases "k = length ?S")
      case True
      then have "fs (cleanup_cache E c w) = delete_all (map fst ?S) (fs w)"
        using k(2) allok[of k] by simp
      then have "candidates (cache_dir c) (fs (cleanup_cache E c w))
          = filter (\<lambda>(q, a). q \<notin> set (map fst ?S)) (candidates (cache_dir c) (fs w))"
        by (simp only: candidates_delete_all)
      also have "\<dots> = []"
        by (auto simp: filter_empty_conv intro: rev_image_eqI)
      finally show ?thesis by simp
    next
      case False
      with k(4) show ?thesis by simp
    qed
    show "\<exists>k\<le>length ?S.
           fs (cleanup_cache E c w) = delete_all (map fst (take k ?S)) (fs w)
         \<and> (\<forall>a\<in>snd ` set (take k ?S). \<forall>b\<in>snd ` set (drop k ?S). a \<le> b)
         \<and> (\<forall>j<k. int (max_cache_size c) < total_size (cache_dir c)
               (delete_all (map fst (take j ?S)) (fs w)))
         \<and> (total_size (cache_dir c) (fs (cleanup_cache E c w)) \<le> int (max_cache_size c)
              \<or> candidates (cache_dir c) (fs (cleanup_cache E c w)) = [])"
      using k(1) k(2) k(3) ord rest by (intro exI[of _ k]) (simp add: allok)
  qed
  show ?thesis
    using bridge within general lru files_by_atime_sorted[of "cache_dir c" "fs w"]
      files_by_atime_set[of "cache_dir c" "fs w"]
    by blast
qed

theorem eviction_sweep_witness:
  "distinct (map fst (fs ex_world_sweep))
   \<and> get_cache_path ex_env ex_cache ex_world_full ''a.psd'' ''_full'' = Inr ''psd_cache/h_full.png''
   \<and> png_save ex_env ''psd_cache/h_full.png'' ex_bitmap = Inr 7
   \<and> fs (snd (save_image_to_cache ex_env ex_cache ex_bitmap ''a.psd'' ''_full'' ex_world_full))
       = [ex_source, ex_mid, ex_new, ex_index]
   \<and> total_size (cache_dir ex_cache) (fs ex_world_sweep) = 1073741838
   \<and> max_cache_size ex_cache = 1073741824
   \<and> files_by_atime (cache_dir ex_cache) (fs ex_world_sweep)
       = [(''psd_cache/old.png'', 1), (''psd_cache/mid.png'', 2), (''psd_cache/h_full.png'', 10)]
   \<and> fs (cleanup_cache ex_env ex_cache ex_world_sweep)
       = delete_all [''psd_cache/old.png''] (fs ex_world_sweep)
   \<and> total_size (cache_dir ex_cache) (fs (cleanup_cache ex_env ex_cache ex_world_sweep)) = 14"
proof -
  have d: "distinct (map fst (fs ex_world_sweep))"
    by (simp add: ex_defs)
  note inst = eviction_sweep [OF d, where E = ex_env and c = ex_cache and cin = ex_cache
      and win = ex_world_full and fp = "''a.psd''" and sfx = "''_full''"
      and cpath = "''psd_cache/h_full.png''" and img = ex_bitmap and n = 7]
  have facts:
    "get_cache_path ex_env ex_cache ex_world_full ''a.psd'' ''_full'' = Inr ''psd_cache/h_full.png''"
    "png_save ex_env ''psd_cache/h_full.png'' ex_bitmap = Inr 7"
    "fs (snd (save_image_to_cache ex_env ex_cache ex_bitmap ''a.psd'' ''_full'' ex_world_full))
       = [ex_source, ex_mid, ex_new, ex_index]"
    "total_size (cache_dir ex_cache) (fs ex_world_sweep) = 1073741838"
    "max_cache_size ex_cache = 1073741824"
    "files_by_atime (cache_dir ex_cache) (fs ex_world_sweep)
       = [(''psd_cache/old.png'', 1), (''psd_cache/mid.png'', 2), (''psd_cache/h_full.png'', 10)]"
    "fs (cleanup_cache ex_env ex_cache ex_world_sweep)
       = delete_all [''psd_cache/old.png''] (fs ex_world_sweep)"
    "total_size (cache_dir ex_cache) (fs (cleanup_cache ex_env ex_cache ex_world_sweep)) = 14"
    by (simp_all add: cache_defs ex_defs delete_all_def)
  from inst show ?thesis
    by - (intro conjI; (rule d facts))
qed

text \<open>
  C7 as stated fails when a removal raises: the oldest image cannot be removed, so the sweep
  removes the two newer ones, the oldest stays, and the total stays above the 1 GiB budget.
\<close>

theorem eviction_sweep_locked_file:
  "fs (snd (save_image_to_cache ex_env_old_locked ex_cache ex_bitmap ''a.psd'' ''_full'' ex_world_full))
       = [ex_source, ex_old, ex_index]
   \<and> total_size ''psd_cache''
        (fs (snd (save_image_to_cache ex_env_old_locked ex_cache ex_bitmap ''a.psd'' ''_full''
                    ex_world_full))) = 1073741826
   \<and> max_cache_size ex_cache = 1073741824
   \<and> st_atime (snd ex_old) = 1 \<and> st_atime (snd ex_mid) = 2
   \<and> ex_mid \<in> set (fs ex_world_full)"
  by (simp add: cache_defs ex_defs)

section \<open>Saving and reading back\<close>

lemma save_metadata_map_of:
  "p \<noteq> metadata_file c \<Longrightarrow> map_of (fs (save_metadata E c w)) p = map_of (fs w) p"
  by (simp add: save_metadata_def write_file_map_of split: sum.splits)

lemma path_join_inject: "path_join d a = path_join d b \<longleftrightarrow> a = b"
  by (simp add: path_join_def)

lemma png_not_metadata: "path_join d (h @ sfx @ ''.png'') \<noteq> path_join d ''metadata.json''"
proof
  assume "path_join d (h @ sfx @ ''.png'') = path_join d ''metadata.json''"
  then have "h @ sfx @ ''.png'' = ''metadata.json''" by (simp add: path_join_inject)
  then have "last (h @ sfx @ ''.png'') = last ''metadata.json''" by simp
  then show False by simp
qed

text \<open>
  C8, as the code has it.  For a cache built by the constructor and a source file that
  exists outside the cache directory: when the PNG is written, the clock at that moment is
  not behind the modification time of the source, and the sweep that ends the save leaves
  the new entry in place, the lookup that follows returns the bitmap that was saved and
  changes nothing.
\<close>

theorem cache_round_trip:
  assumes src: "os_stat w fp = Inr sf"
    and outside: "\<not> under_dir dir fp"
    and png: "png_save E (path_join dir (file_hash E fp (st_size sf) (st_mtime sf) @ sfx @ ''.png'')) B = Inr n"
    and clk: "st_mtime sf \<le> clock w"
    and kept: "map_of (fs (snd (save_image_to_cache E (PSDFileCache_init dir md) B fp sfx w)))
                 (path_join dir (file_hash E fp (st_size sf) (st_mtime sf) @ sfx @ ''.png'')) \<noteq> None"
  shows "get_cached_image E (fst (save_image_to_cache E (PSDFileCache_init dir md) B fp sfx w)) fp sfx
           (snd (save_image_to_cache E (PSDFileCache_init dir md) B fp sfx w))
         = (Inr (Some B), snd (save_image_to_cache E (PSDFileCache_init dir md) B fp sfx w))"
proof -
  let ?c = "PSDFileCache_init dir md"
  let ?cpath = "path_join dir (file_hash E fp (st_size sf) (st_mtime sf) @ sfx @ ''.png'')"
  let ?nf = "\<lparr>st_size = n, st_mtime = clock w, st_atime = clock w, decodes_to = Some B\<rparr>"
  let ?w1 = "write_file ?cpath ?nf w"
  have cd: "cache_dir ?c = dir" and mf: "metadata_file ?c = path_join dir ''metadata.json''"
    by (simp_all add: PSDFileCache_init_def)
  have gcp: "get_cache_path E ?c w fp sfx = Inr ?cpath"
    using src by (simp add: get_cache_path_def get_file_hash_def cd)
  from save_image_to_cache_sweeps[OF gcp png] obtain md' where
    save0: "save_image_to_cache E ?c B fp sfx w =
      (?c\<lparr>metadata := md'\<rparr>,
       cleanup_cache E (?c\<lparr>metadata := md'\<rparr>) (save_metadata E (?c\<lparr>metadata := md'\<rparr>) ?w1))"
    by blast
  define c' where "c' = ?c\<lparr>metadata := md'\<rparr>"
  have save: "save_image_to_cache E ?c B fp sfx w = (c', cleanup_cache E c' (save_metadata E c' ?w1))"
    using save0 by (simp only: c'_def)
  have cd': "cache_dir c' = dir" and mf': "metadata_file c' = path_join dir ''metadata.json''"
    by (simp_all add: c'_def PSDFileCache_init_def)
  let ?w2 = "save_metadata E c' ?w1"
  let ?w' = "cleanup_cache E c' ?w2"
  have ucp: "under_dir dir ?cpath" by (rule under_dir_join) simp
  have umf: "under_dir dir (path_join dir ''metadata.json'')" by (rule under_dir_join) simp
  from outside ucp have ne1: "fp \<noteq> ?cpath" by auto
  from outside umf have ne2: "fp \<noteq> metadata_file c'" by (auto simp: mf')
  have ne3: "?cpath \<noteq> metadata_file c'" by (simp add: mf' png_not_metadata)
  from src have srcw: "map_of (fs w) fp = Some sf"
    by (auto simp: os_stat_def split: option.splits)
  have s2: "map_of (fs ?w2) fp = Some sf"
    using ne1 ne2 srcw by (simp add: save_metadata_map_of write_file_map_of)
  have n2: "map_of (fs ?w2) ?cpath = Some ?nf"
    using ne3 by (simp add: save_metadata_map_of write_file_map_of)
  have s': "map_of (fs ?w') fp = Some sf"
    using cleanup_cache_frame[of E c' ?w2 fp] outside s2 by (auto simp: cd')
  have n': "map_of (fs ?w') ?cpath = Some ?nf"
    using cleanup_cache_frame[of E c' ?w2 ?cpath] kept n2 by (auto simp: save)
  have gcp': "get_cache_path E c' ?w' fp sfx = Inr ?cpath"
    using s' by (simp add: get_cache_path_def get_file_hash_def os_stat_def cd')
  have "get_cached_image E c' fp sfx ?w' = (Inr (Some B), ?w')"
    using gcp' n' s' clk by (simp add: get_cached_image_def os_stat_def)
  then show ?thesis by (simp add: save)
qed

theorem cache_round_trip_witness:
  "os_stat ex_world_src ''a.psd'' = Inr (snd ex_source)
   \<and> under_dir ''psd_cache'' ''a.psd'' = False
   \<and> png_save ex_env ''psd_cache/h_full.png'' ex_bitmap = Inr 7
   \<and> st_mtime (snd ex_source) = 9 \<and> clock ex_world_src = 10
   \<and> map_of (fs (snd (save_image_to_cache ex_env (PSDFileCache_init ''psd_cache'' []) ex_bitmap
                        ''a.psd'' ''_full'' ex_world_src))) ''psd_cache/h_full.png''
       = Some \<lparr>st_size = 7, st_mtime = 10, st_atime = 10, decodes_to = Some ex_bitmap\<rparr>
   \<and> fst (get_cached_image ex_env
             (fst (save_image_to_cache ex_env (PSDFileCache_init ''psd_cache'' []) ex_bitmap
                     ''a.psd'' ''_full'' ex_world_src))
             ''a.psd'' ''_full''
             (snd (save_image_to_cache ex_env (PSDFileCache_init ''psd_cache'' []) ex_bitmap
                     ''a.psd'' ''_full'' ex_world_src)))
       = Inr (Some ex_bitmap)"
proof -
  have facts:
    "os_stat ex_world_src ''a.psd'' = Inr (snd ex_source)"
    "under_dir ''psd_cache'' ''a.psd'' = False"
    "png_save ex_env ''psd_cache/h_full.png'' ex_bitmap = Inr 7"
    "st_mtime (snd ex_source) = 9" "clock ex_world_src = 10"
    "map_of (fs (snd (save_image_to_cache ex_env (PSDFileCache_init ''psd_cache'' []) ex_bitmap
                        ''a.psd'' ''_full'' ex_world_src))) ''psd_cache/h_full.png''
       = Some \<lparr>st_size = 7, st_mtime = 10, st_atime = 10, decodes_to = Some ex_bitmap\<rparr>"
    by (simp_all add: cache_defs ex_defs ex_world_src_def)
  have h: "path_join ''psd_cache''
             (file_hash ex_env ''a.psd'' (st_size (snd ex_source)) (st_mtime (snd ex_source))
                @ ''_full'' @ ''.png'')
           = ''psd_cache/h_full.png''"
    by (simp add: ex_env_def path_join_def)
  have le: "st_mtime (snd ex_source) \<le> clock ex_world_src"
    by (simp add: facts)
  have rt: "get_cached_image ex_env
             (fst (save_image_to_cache ex_env (PSDFileCache_init ''psd_cache'' []) ex_bitmap
                     ''a.psd'' ''_full'' ex_world_src))
             ''a.psd'' ''_full''
             (snd (save_image_to_cache ex_env (PSDFileCache_init ''psd_cache'' []) ex_bitmap
                     ''a.psd'' ''_full'' ex_world_src))
        = (Inr (Some ex_bitmap),
           snd (save_image_to_cache ex_env (PSDFileCache_init ''psd_cache'' []) ex_bitmap
                     ''a.psd'' ''_full'' ex_world_src))"
  proof (rule cache_round_trip [where sf = "snd ex_source" and n = 7])
    show "os_stat ex_world_src ''a.psd'' = Inr (snd ex_source)" by (rule facts)
    show "\<not> under_dir ''psd_cache'' ''a.psd''" by (simp add: facts)
    show "png_save ex_env (path_join ''psd_cache''
             (file_hash ex_env ''a.psd'' (st_size (snd ex_source)) (st_mtime (snd ex_source))
                @ ''_full'' @ ''.png'')) ex_bitmap = Inr 7"
      unfolding h by (rule facts)
    show "st_mtime (snd ex_source) \<le> clock ex_world_src" by (rule le)
    show "map_of (fs (snd (save_image_to_cache ex_env (PSDFileCache_init ''psd_cache'' []) ex_bitmap
                        ''a.psd'' ''_full'' ex_world_src)))
            (path_join ''psd_cache''
             (file_hash ex_env ''a.psd'' (st_size (snd ex_source)) (st_mtime (snd ex_source))
                @ ''_full'' @ ''.png'')) \<noteq> None"
      unfolding h by (simp add: facts)
  qed
  show ?thesis
    using facts rt by simp
qed

text \<open>
  C8 as stated fails when the cache directory cannot be written: the save logs the failure
  and returns, and the lookup that follows finds no entry.
\<close>

theorem cache_round_trip_unwritable:
  "os_stat ex_world_src ''a.psd'' = Inr (snd ex_source)
   \<and> fst (get_cached_image ex_env_readonly
             (fst (save_image_to_cache ex_env_readonly (PSDFileCache_init ''psd_cache'' []) ex_bitmap
                     ''a.psd'' ''_full'' ex_world_src))
             ''a.psd'' ''_full''
             (snd (save_image_to_cache ex_env_readonly (PSDFileCache_init ''psd_cache'' []) ex_bitmap
                     ''a.psd'' ''_full'' ex_world_src)))
       = Inr None"
  by (simp add: cache_defs ex_defs ex_world_src_def ex_env_readonly_def get_cached_image_def)

section \<open>The built-in strategies\<close>

lemma last_split_lambda: "last (split_on (CHR ''.'') ''<lambda>'') = ''<lambda>''"
  by simp

lemma hasattr_lambda: "\<not> hasattr psd ''<lambda>''"
  by (simp add: hasattr_def attr_names_def)

lemma try_loop_try_methods: "try_loop psd try_methods st = st"
proof -
  obtain composite methods_tried w where st: "st = (composite, methods_tried, w)"
    by (cases st) auto
  show ?thesis
    by (simp add: st try_methods_def hasattr_lambda)
qed

lemma strategies_manual:
  "has_layers psd \<Longrightarrow> psd_layers psd \<noteq> [] \<Longrightarrow>
     strategies P psd w =
       manual_composition P psd
         (None, [], logger DEBUG (''Generating composite for PSD: '' @ type_name psd) w)"
  by (simp add: strategies_def try_loop_try_methods Let_def)

lemma strategies_nothing:
  "\<not> has_layers psd \<or> psd_layers psd = [] \<Longrightarrow>
     strategies P psd w =
       (None, [], logger DEBUG (''Generating composite for PSD: '' @ type_name psd) w)"
  by (auto simp add: strategies_def try_loop_try_methods Let_def)

section \<open>Manual layer composition\<close>












lemma manual_failed_None: "fst (manual_failed e (None, mt, w)) = None"
  by (simp add: manual_failed_def)



lemma generate_composite_Some:
  "strategies P psd w = (Some C, mt', w') \<Longrightarrow>
     fst (generate_composite P E psd self (cache, w)) = Inr C"
  by (simp add: generate_composite_def split: option.splits prod.splits)


lemmas render_defs = strategies_def try_methods_def hasattr_def attr_names_def manual_composition_def
  manual_failed_def or_default_def image_new_def layer_body_def alpha_composite_def
  enumerate_from0_def logger_def Let_def upt_rec str_nat.simps



section \<open>The placeholder\<close>

lemma draw_lines_Inr:
  "draw_lines P xs img = Inr img' \<Longrightarrow>
     mode img' = mode img \<and> dims img' = dims img \<and> fill img' = fill img \<and>
     drawn img' = drawn img @ map (\<lambda>(i, line). DrawText (10, 10 + int i * 20) line [200, 0, 0]) xs"
proof (induction xs arbitrary: img)
  case Nil
  then show ?case by simp
next
  case (Cons x xs)
  obtain i line where x: "x = (i, line)" by (cases x)
  from Cons.prems obtain img1 where
    d: "draw_text P img (10, 10 + int i * 20) line [200, 0, 0] = Inr img1"
    and r: "draw_lines P xs img1 = Inr img'"
    by (auto simp: x split: sum.splits)
  from d have img1: "img1 = Image (mode img) (dims img) (fill img)
      (drawn img @ [DrawText (10, 10 + int i * 20) line [200, 0, 0]])"
    by (auto simp: draw_text_def split: option.splits)
  from Cons.IH[OF r] show ?case by (simp add: img1 x)
qed

lemma draw_lines_total:
  "(\<And>im xy line. text_error P im xy line = None) \<Longrightarrow> \<exists>img'. draw_lines P xs img = Inr img'"
  by (induction xs arbitrary: img) (auto simp: draw_text_def)

lemma placeholder_Inr:
  "placeholder P mt = Inr img \<Longrightarrow>
     mode img = ''RGB'' \<and> dims img = (800, 200) \<and> fill img = [255, 200, 200] \<and>
     drawn img = map (\<lambda>(i, line). DrawText (10, 10 + int i * 20) line [200, 0, 0])
                   (enumerate_from0 (split_on (CHR 0x0A) (placeholder_text mt)))"
proof -
  assume a: "placeholder P mt = Inr img"
  then have "draw_lines P (enumerate_from0 (split_on (CHR 0x0A) (placeholder_text mt)))
               (Image ''RGB'' (800, 200) [255, 200, 200] []) = Inr img"
    by (auto simp: placeholder_def image_new_def split: option.splits sum.splits)
  from draw_lines_Inr[OF this] show ?thesis by simp
qed

lemma placeholder_total:
  assumes "new_error P ''RGB'' (800, 200) = None"
    and "\<And>im. draw_error P im = None" and "load_default_error P = None"
    and "\<And>im xy line. text_error P im xy line = None"
  shows "\<exists>img. placeholder P mt = Inr img"
  using assms draw_lines_total[of P] by (simp add: placeholder_def image_new_def)

lemma split_on_nonempty: "split_on c xs \<noteq> []"
  by (induction xs) (auto split: list.splits)

lemma split_on_no_sep: "c \<notin> set xs \<Longrightarrow> split_on c xs = [xs]"
  by (induction xs) auto

lemma split_on_append_sep: "split_on c (xs @ c # ys) = split_on c xs @ split_on c ys"
proof (induction xs)
  case Nil
  then show ?case by simp
next
  case (Cons x xs)
  obtain y ys' where s: "split_on c xs = y # ys'"
    using split_on_nonempty[of c xs] by (cases "split_on c xs") auto
  with Cons show ?case by simp
qed

lemma split_on_join:
  "ms \<noteq> [] \<Longrightarrow> split_on c (join [c] ms) = concat (map (split_on c) ms)"
proof (induction ms)
  case Nil
  then show ?case by simp
next
  case (Cons m ms)
  show ?case
  proof (cases ms)
    case Nil
    then show ?thesis by simp
  next
    case (Cons y ys)
    with Cons.IH show ?thesis by (simp add: split_on_append_sep)
  qed
qed

lemma split_on_two_seps:
  "c \<notin> set xs \<Longrightarrow> split_on c (xs @ [c, c] @ rest) = [xs, []] @ split_on c rest"
  by (simp add: split_on_append_sep split_on_no_sep)

lemma split_on_one_sep:
  "c \<notin> set xs \<Longrightarrow> split_on c (xs @ [c] @ rest) = [xs] @ split_on c rest"
  by (simp add: split_on_append_sep split_on_no_sep)

lemma placeholder_lines:
  "split_on (CHR 0x0A) (placeholder_text mt) =
     [''Failed to load PSD file.'', [], ''Tried methods:''] @
     (if mt = [] then [[]] else concat (map (\<lambda>m. split_on (CHR 0x0A) (''- '' @ m)) mt))"
proof -
  have a: "split_on (CHR 0x0A) (''Failed to load PSD file.'' @ [CHR 0x0A, CHR 0x0A] @ rest)
      = [''Failed to load PSD file.'', []] @ split_on (CHR 0x0A) rest" for rest
    by (rule split_on_two_seps) simp
  have b: "split_on (CHR 0x0A) (''Tried methods:'' @ [CHR 0x0A] @ rest)
      = [''Tried methods:''] @ split_on (CHR 0x0A) rest" for rest
    by (rule split_on_one_sep) simp
  have c: "split_on (CHR 0x0A) (join [CHR 0x0A] (map (\<lambda>m. ''- '' @ m) mt))
      = (if mt = [] then [[]] else concat (map (\<lambda>m. split_on (CHR 0x0A) (''- '' @ m)) mt))"
  proof (cases "mt = []")
    case True
    then show ?thesis by simp
  next
    case False
    then have ne: "map (\<lambda>m. ''- '' @ m) mt \<noteq> []" by simp
    show ?thesis
      using False split_on_join[OF ne, of "CHR 0x0A"]
      by (simp only: map_map comp_def if_False)
  qed
  show ?thesis
    unfolding placeholder_text_def by (simp only: a b c) simp
qed

lemma manual_composition_dimless:
  assumes h: "psd_header psd = Some hdr"
    and z: "or_default (header_width hdr) (psd_width psd) = 0 \<or>
            or_default (header_height hdr) (psd_height psd) = 0"
    and l: "psd_layers psd = first_layer # rest"
    and f: "layer_width first_layer = 0 \<or> layer_height first_layer = 0"
  shows "manual_composition P psd (None, mt, w) =
     (None, mt @ [''manual composition failed: Unable to determine image dimensions''],
      logger ERROR ''Manual composition failed: Unable to determine image dimensions''
        (logger DEBUG ''Attempting manual layer composition'' w))"
  using z f by (simp add: manual_composition_def manual_failed_def h l Let_def)

text \<open>
  C3.  When the strategies end without a composite and the placeholder can be drawn, the
  generator returns it: an 800 by 200 RGB bitmap filled with (255, 200, 200) on which the
  lines \<open>Failed to load PSD file.\<close>, an empty line, \<open>Tried methods:\<close> and one entry
  \<open>- m\<close> per recorded method are written in (200, 0, 0), line \<open>i\<close> at (10, 10 + 20 i).  The
  generator raises only when the strategies ended without a composite and drawing the
  placeholder raised; if no drawing call raises, a placeholder is returned.  A document with
  none of the three accessors ends without a composite when it has no layers (nothing is
  recorded) and when neither its header nor its first layer gives dimensions (the failure of
  manual composition is recorded).
\<close>

theorem placeholder_on_exhaustion:
  "(strategies P psd w = (None, mt, w1) \<and> placeholder P mt = Inr img \<longrightarrow>
      generate_composite P E psd self (cache, w)
        = (Inr img, cache,
           logger ERROR (''Could not generate composite. Tried methods: '' @ join '', '' mt) w1)
      \<and> mode img = ''RGB'' \<and> dims img = (800, 200) \<and> fill img = [255, 200, 200]
      \<and> drawn img = map (\<lambda>(i, line). DrawText (10, 10 + int i * 20) line [200, 0, 0])
           (enumerate_from0
              ([''Failed to load PSD file.'', [], ''Tried methods:''] @
               (if mt = [] then [[]]
                else concat (map (\<lambda>m. split_on (CHR 0x0A) (''- '' @ m)) mt)))))
   \<and> (fst (generate_composite P E psd self (cache, w)) = Inl e \<longrightarrow>
        (\<exists>mt w1 fe. strategies P psd w = (None, mt, w1) \<and> placeholder P mt = Inl fe))
   \<and> (fst (strategies P psd w) = None \<and> new_error P ''RGB'' (800, 200) = None \<and>
       (\<forall>im. draw_error P im = None) \<and> load_default_error P = None \<and>
       (\<forall>im xy line. text_error P im xy line = None) \<longrightarrow>
        (\<exists>img. fst (generate_composite P E psd self (cache, w)) = Inr img \<and>
               placeholder P (fst (snd (strategies P psd w))) = Inr img))
   \<and> (psd_composite psd = None \<and> psd_topil psd = None \<and> psd_get_composite_image psd = None \<and>
       (\<not> has_layers psd \<or> psd_layers psd = []) \<longrightarrow>
        fst (strategies P psd w) = None \<and> fst (snd (strategies P psd w)) = [])
   \<and> (psd_composite psd = None \<and> psd_topil psd = None \<and> psd_get_composite_image psd = None \<and>
       has_layers psd \<and> psd_layers psd = first_layer # rest \<and> psd_header psd = Some hdr \<and>
       (or_default (header_width hdr) (psd_width psd) = 0 \<or>
        or_default (header_height hdr) (psd_height psd) = 0) \<and>
       (layer_width first_layer = 0 \<or> layer_height first_layer = 0) \<longrightarrow>
        fst (strategies P psd w) = None \<and>
        fst (snd (strategies P psd w))
          = [''manual composition failed: Unable to determine image dimensions''])"
proof -
  have a: "strategies P psd w = (None, mt, w1) \<and> placeholder P mt = Inr img \<longrightarrow>
      generate_composite P E psd self (cache, w)
        = (Inr img, cache,
           logger ERROR (''Could not generate composite. Tried methods: '' @ join '', '' mt) w1)
      \<and> mode img = ''RGB'' \<and> dims img = (800, 200) \<and> fill img = [255, 200, 200]
      \<and> drawn img = map (\<lambda>(i, line). DrawText (10, 10 + int i * 20) line [200, 0, 0])
           (enumerate_from0
              ([''Failed to load PSD file.'', [], ''Tried methods:''] @
               (if mt = [] then [[]]
                else concat (map (\<lambda>m. split_on (CHR 0x0A) (''- '' @ m)) mt))))"
  proof (intro impI, elim conjE)
    assume s: "strategies P psd w = (None, mt, w1)" and p: "placeholder P mt = Inr img"
    have g: "generate_composite P E psd self (cache, w)
        = (Inr img, cache,
           logger ERROR (''Could not generate composite. Tried methods: '' @ join '', '' mt) w1)"
      by (simp add: generate_composite_def s p Let_def)
    from placeholder_Inr[OF p] g show "generate_composite P E psd self (cache, w)
        = (Inr img, cache,
           logger ERROR (''Could not generate composite. Tried methods: '' @ join '', '' mt) w1)
      \<and> mode img = ''RGB'' \<and> dims img = (800, 200) \<and> fill img = [255, 200, 200]
      \<and> drawn img = map (\<lambda>(i, line). DrawText (10, 10 + int i * 20) line [200, 0, 0])
           (enumerate_from0
              ([''Failed to load PSD file.'', [], ''Tried methods:''] @
               (if mt = [] then [[]]
                else concat (map (\<lambda>m. split_on (CHR 0x0A) (''- '' @ m)) mt))))"
      by (simp only: placeholder_lines)
  qed
  obtain comp mt0 w0 where s0: "strategies P psd w = (comp, mt0, w0)"
    by (cases "strategies P psd w") auto
  have b: "fst (generate_composite P E psd self (cache, w)) = Inl e \<longrightarrow>
        (\<exists>mt w1 fe. strategies P psd w = (None, mt, w1) \<and> placeholder P mt = Inl fe)"
  proof
    assume r: "fst (generate_composite P E psd self (cache, w)) = Inl e"
    show "\<exists>mt w1 fe. strategies P psd w = (None, mt, w1) \<and> placeholder P mt = Inl fe"
    proof (cases comp)
      case None
      show ?thesis
      proof (cases "placeholder P mt0")
        case (Inl fe)
        with s0 None show ?thesis by blast
      next
        case (Inr img0)
        with s0 None r show ?thesis
          by (simp add: generate_composite_def Let_def)
      qed
    next
      case (Some C)
      with s0 generate_composite_Some[of P psd w C mt0 w0 E self cache] r show ?thesis by simp
    qed
  qed
  have c: "fst (strategies P psd w) = None \<and> new_error P ''RGB'' (800, 200) = None \<and>
       (\<forall>im. draw_error P im = None) \<and> load_default_error P = None \<and>
       (\<forall>im xy line. text_error P im xy line = None) \<longrightarrow>
        (\<exists>img. fst (generate_composite P E psd self (cache, w)) = Inr img \<and>
               placeholder P (fst (snd (strategies P psd w))) = Inr img)"
  proof (intro impI, elim conjE)
    assume n: "fst (strategies P psd w) = None" and 1: "new_error P ''RGB'' (800, 200) = None"
      and 2: "\<forall>im. draw_error P im = None" and 3: "load_default_error P = None"
      and 4: "\<forall>im xy line. text_error P im xy line = None"
    from placeholder_total[of P mt0] 1 2 3 4 obtain img0 where p: "placeholder P mt0 = Inr img0"
      by blast
    from n s0 have "comp = None" by simp
    with s0 p show "\<exists>img. fst (generate_composite P E psd self (cache, w)) = Inr img \<and>
               placeholder P (fst (snd (strategies P psd w))) = Inr img"
      by (simp add: generate_composite_def Let_def)
  qed
  have d: "psd_composite psd = None \<and> psd_topil psd = None \<and> psd_get_composite_image psd = None \<and>
       (\<not> has_layers psd \<or> psd_layers psd = []) \<longrightarrow>
        fst (strategies P psd w) = None \<and> fst (snd (strategies P psd w)) = []"
    using strategies_nothing[of psd P w] by auto
  have e: "psd_composite psd = None \<and> psd_topil psd = None \<and> psd_get_composite_image psd = None \<and>
       has_layers psd \<and> psd_layers psd = first_layer # rest \<and> psd_header psd = Some hdr \<and>
       (or_default (header_width hdr) (psd_width psd) = 0 \<or>
        or_default (header_height hdr) (psd_height psd) = 0) \<and>
       (layer_width first_layer = 0 \<or> layer_height first_layer = 0) \<longrightarrow>
        fst (strategies P psd w) = None \<and>
        fst (snd (strategies P psd w))
          = [''manual composition failed: Unable to determine image dimensions'']"
  proof (intro impI, elim conjE)
    assume hl: "has_layers psd" and l: "psd_layers psd = first_layer # rest"
      and h: "psd_header psd = Some hdr"
      and z: "or_default (header_width hdr) (psd_width psd) = 0 \<or>
              or_default (header_height hdr) (psd_height psd) = 0"
      and f: "layer_width first_layer = 0 \<or> layer_height first_layer = 0"
    from l have ne: "psd_layers psd \<noteq> []" by simp
    show "fst (strategies P psd w) = None \<and>
        fst (snd (strategies P psd w))
          = [''manual composition failed: Unable to determine image dimensions'']"
      by (simp only: strategies_manual[OF hl ne] manual_composition_dimless[OF h z l f]) simp
  qed
  from a b c d e show ?thesis by blast
qed

lemmas placeholder_defs = generate_composite_def placeholder_def placeholder_text_def draw_text_def

theorem placeholder_on_exhaustion_witness:
  "psd_composite ex_psd_bare = None \<and> psd_topil ex_psd_bare = None
   \<and> psd_get_composite_image ex_psd_bare = None \<and> psd_layers ex_psd_bare = []
   \<and> fst (strategies ex_pil ex_psd_bare ex_world_src) = None
   \<and> fst (snd (strategies ex_pil ex_psd_bare ex_world_src)) = []
   \<and> placeholder ex_pil [] = Inr ex_placeholder
   \<and> fst (generate_composite ex_pil ex_env ex_psd_bare ex_renderer (ex_cache, ex_world_src))
       = Inr ex_placeholder
   \<and> fst (snd (strategies ex_pil ex_psd_dimless ex_world_src))
       = [''manual composition failed: Unable to determine image dimensions'']
   \<and> fst (generate_composite ex_pil ex_env ex_psd_dimless ex_renderer (ex_cache, ex_world_src))
       = Inr (Image ''RGB'' (800, 200) [255, 200, 200]
               [DrawText (10, 10) ''Failed to load PSD file.'' [200, 0, 0],
                DrawText (10, 30) [] [200, 0, 0],
                DrawText (10, 50) ''Tried methods:'' [200, 0, 0],
                DrawText (10, 70)
                  ''- manual composition failed: Unable to determine image dimensions''
                  [200, 0, 0]])
   \<and> placeholder ex_pil_broken [] = Inl (Error ''MemoryError'' ''out of memory'')
   \<and> fst (generate_composite ex_pil_broken ex_env ex_psd_bare ex_renderer (ex_cache, ex_world_src))
       = Inl (Error ''ValueError'' ''Could not generate composite. Tried methods: '')"
proof -
  have bare: "psd_composite ex_psd_bare = None" "psd_topil ex_psd_bare = None"
    "psd_get_composite_image ex_psd_bare = None" "psd_layers ex_psd_bare = []"
    by (simp_all add: ex_psd_bare_def)
  note inst = placeholder_on_exhaustion [where P = ex_pil and psd = ex_psd_bare and w = ex_world_src
      and E = ex_env and self = ex_renderer and cache = ex_cache]
  have none: "fst (strategies ex_pil ex_psd_bare ex_world_src) = None
      \<and> fst (snd (strategies ex_pil ex_psd_bare ex_world_src)) = []"
    by (rule mp[OF inst[THEN conjunct2, THEN conjunct2, THEN conjunct2, THEN conjunct1]])
       (simp add: bare)
  have evals:
    "placeholder ex_pil [] = Inr ex_placeholder"
    "fst (generate_composite ex_pil ex_env ex_psd_bare ex_renderer (ex_cache, ex_world_src))
       = Inr ex_placeholder"
    "fst (snd (strategies ex_pil ex_psd_dimless ex_world_src))
       = [''manual composition failed: Unable to determine image dimensions'']"
    "fst (generate_composite ex_pil ex_env ex_psd_dimless ex_renderer (ex_cache, ex_world_src))
       = Inr (Image ''RGB'' (800, 200) [255, 200, 200]
               [DrawText (10, 10) ''Failed to load PSD file.'' [200, 0, 0],
                DrawText (10, 30) [] [200, 0, 0],
                DrawText (10, 50) ''Tried methods:'' [200, 0, 0],
                DrawText (10, 70)
                  ''- manual composition failed: Unable to determine image dimensions''
                  [200, 0, 0]])"
    "placeholder ex_pil_broken [] = Inl (Error ''MemoryError'' ''out of memory'')"
    "fst (generate_composite ex_pil_broken ex_env ex_psd_bare ex_renderer (ex_cache, ex_world_src))
       = Inl (Error ''ValueError'' ''Could not generate composite. Tried methods: '')"
    by (simp_all add: render_defs placeholder_defs ex_psd_bare_def ex_psd_dimless_def ex_pil_def
          ex_pil_broken_def ex_renderer_def ex_placeholder_def ex_img_a_def)
  from bare none evals show ?thesis by (intro conjI) simp_all
qed

text \<open>
  C1 fails on the code.  Every entry of \<open>try_methods\<close> is a lambda, whose \<open>__name__\<close> is
  \<open><lambda>\<close>, so the guard asks the document for an attribute of that name and no built-in
  strategy is ever called: a document without layers whose \<open>composite()\<close> returns a bitmap
  gets the placeholder, not that bitmap.
\<close>

theorem builtin_composite_not_used:
  "psd_composite ex_psd_builtin = Some (Inr (Some ex_bitmap))
   \<and> hasattr ex_psd_builtin ''composite''
   \<and> fst (generate_composite ex_pil ex_env ex_psd_builtin ex_renderer (ex_cache, ex_world_src))
       = Inr ex_placeholder
   \<and> ex_placeholder \<noteq> ex_bitmap"
  by (simp add: render_defs placeholder_defs ex_psd_builtin_def ex_pil_def ex_renderer_def
        ex_placeholder_def ex_bitmap_def)

section \<open>Requests, the worker thread and the callbacks\<close>

lemma init_idle:
  "self_loading (fst (PSDFullRenderer_init E psd fpath cw)) = False \<and>
   self_callbacks (fst (PSDFullRenderer_init E psd fpath cw)) = []"
  by (cases cw) (simp add: PSDFullRenderer_init_def Let_def split: option.splits sum.splits prod.splits)

lemma get_composite_image_first:
  assumes "self_composite (renderer p) = None" and "\<not> self_loading (renderer p)"
  shows "get_composite_image (Some cb) p =
      (None, p\<lparr>renderer := (renderer p)\<lparr>self_callbacks := self_callbacks (renderer p) @ [cb],
                                         self_loading := True\<rparr>,
                started := started p + 1\<rparr>)"
  using assms by (simp add: get_composite_image_def Let_def)

lemma get_composite_image_loading:
  assumes "self_composite (renderer p) = None" and "self_loading (renderer p)"
  shows "get_composite_image (Some cb) p =
      (None, p\<lparr>renderer := (renderer p)\<lparr>self_callbacks := self_callbacks (renderer p) @ [cb]\<rparr>\<rparr>)"
  using assms by (simp add: get_composite_image_def Let_def)

lemma get_composite_image_ready:
  "self_composite (renderer p) = Some img \<Longrightarrow> get_composite_image cb p = (Some img, p)"
  by (simp add: get_composite_image_def)

lemma requests_loading:
  "self_composite (renderer p) = None \<Longrightarrow> self_loading (renderer p) \<Longrightarrow>
     requests (map Some cbs) p =
       (replicate (length cbs) None,
        p\<lparr>renderer := (renderer p)\<lparr>self_callbacks := self_callbacks (renderer p) @ cbs\<rparr>\<rparr>)"
proof (induction cbs arbitrary: p)
  case Nil
  then show ?case by simp
next
  case (Cons cb cbs)
  let ?p1 = "p\<lparr>renderer := (renderer p)\<lparr>self_callbacks := self_callbacks (renderer p) @ [cb]\<rparr>\<rparr>"
  have g: "get_composite_image (Some cb) p = (None, ?p1)"
    by (rule get_composite_image_loading[OF Cons.prems])
  have "requests (map Some cbs) ?p1 =
       (replicate (length cbs) None,
        ?p1\<lparr>renderer := (renderer ?p1)\<lparr>self_callbacks := self_callbacks (renderer ?p1) @ cbs\<rparr>\<rparr>)"
    using Cons.prems by (intro Cons.IH) simp_all
  then show ?case by (simp add: g)
qed

lemma requests_fresh:
  assumes "self_composite (renderer p) = None" and "\<not> self_loading (renderer p)"
    and "self_callbacks (renderer p) = []"
  shows "requests (map Some (cb # cbs)) p =
       (replicate (Suc (length cbs)) None,
        p\<lparr>renderer := (renderer p)\<lparr>self_callbacks := cb # cbs, self_loading := True\<rparr>,
          started := started p + 1\<rparr>)"
proof -
  let ?p1 = "p\<lparr>renderer := (renderer p)\<lparr>self_callbacks := self_callbacks (renderer p) @ [cb],
                                         self_loading := True\<rparr>,
                started := started p + 1\<rparr>"
  have g: "get_composite_image (Some cb) p = (None, ?p1)"
    by (rule get_composite_image_first[OF assms(1,2)])
  have "requests (map Some cbs) ?p1 =
       (replicate (length cbs) None,
        ?p1\<lparr>renderer := (renderer ?p1)\<lparr>self_callbacks := self_callbacks (renderer ?p1) @ cbs\<rparr>\<rparr>)"
    using assms by (intro requests_loading) simp_all
  then show ?thesis using assms(3) by (simp add: g)
qed

lemma run_callbacks_effect:
  "invoked (run_callbacks ce cbs B p) = invoked p @ map (\<lambda>cb. (cb, B)) cbs \<and>
   renderer (run_callbacks ce cbs B p) = renderer p \<and>
   started (run_callbacks ce cbs B p) = started p \<and>
   uncaught (run_callbacks ce cbs B p) = uncaught p \<and>
   psd_cache (run_callbacks ce cbs B p) = psd_cache p"
proof (induction cbs arbitrary: p)
  case Nil
  then show ?case by simp
next
  case (Cons cb cbs)
  show ?case
    by (cases "ce cb B") (simp_all add: Cons.IH Let_def)
qed

lemma on_composite_ready_effect:
  "invoked (on_composite_ready ce B p) = invoked p @ map (\<lambda>cb. (cb, B)) (self_callbacks (renderer p)) \<and>
   renderer (on_composite_ready ce B p) =
     (renderer p)\<lparr>self_composite := Some B, self_loading := False, self_callbacks := []\<rparr> \<and>
   started (on_composite_ready ce B p) = started p \<and>
   uncaught (on_composite_ready ce B p) = uncaught p"
  by (simp add: on_composite_ready_def Let_def run_callbacks_effect)

lemma thread_target_Inr:
  "generate_composite P E psd (renderer p) (psd_cache p, wld p) = (Inr B, cache', w') \<Longrightarrow>
     thread_target P E ce psd p =
       on_composite_ready ce B (p\<lparr>psd_cache := cache', wld := w', started := started p - 1\<rparr>)"
  by (simp add: thread_target_def)

lemma thread_target_Inl:
  "generate_composite P E psd (renderer p) (psd_cache p, wld p) = (Inl e, cache', w') \<Longrightarrow>
     thread_target P E ce psd p =
       p\<lparr>psd_cache := cache', wld := w', started := started p - 1, uncaught := uncaught p @ [e]\<rparr>"
  by (simp add: thread_target_def)

lemma generate_composite_Inl:
  assumes "generate_composite P E psd self (cache, w) = (Inl e, cache', w')"
  shows "\<exists>mt w1 fe. strategies P psd w = (None, mt, w1) \<and> placeholder P mt = Inl fe \<and>
           e = Error ''ValueError''
                 (''Could not generate composite. Tried methods: '' @ join '', '' mt)"
proof -
  obtain comp mt w1 where s: "strategies P psd w = (comp, mt, w1)"
    by (cases "strategies P psd w") auto
  show ?thesis
  proof (cases comp)
    case None
    with assms s show ?thesis
      by (cases "placeholder P mt") (auto simp: generate_composite_def Let_def)
  next
    case (Some C)
    with assms s show ?thesis
      by (simp add: generate_composite_def split: option.splits prod.splits if_splits)
  qed
qed

lemmas renderer_defs = get_composite_image_def thread_target_def on_composite_ready_def
  PSDFullRenderer_init_def ex_process_def ex_cb_error_def

lemma ex_requests:
  "requests (map Some [7, 3, 7]) ex_process =
     ([None, None, None],
      ex_process\<lparr>renderer := \<lparr>self_filepath = None, self_composite = None, self_loading = True,
                               self_callbacks = [7, 3, 7]\<rparr>,
                 started := 1\<rparr>)"
  by (simp add: renderer_defs)

lemma ex_generate:
  "generate_composite ex_pil ex_env ex_psd_bare
      \<lparr>self_filepath = None, self_composite = None, self_loading = True, self_callbacks = [7, 3, 7]\<rparr>
      (ex_cache, ex_world_src)
    = (Inr ex_placeholder, ex_cache,
       ex_world_src\<lparr>log := [(DEBUG, ''Generating composite for PSD: PSDImage''),
                            (ERROR, ''Could not generate composite. Tried methods: '')]\<rparr>)"
  by (simp add: render_defs placeholder_defs ex_psd_bare_def ex_pil_def ex_placeholder_def
        ex_world_src_def)

lemma ex_generate_broken:
  "generate_composite ex_pil_broken ex_env ex_psd_bare
      \<lparr>self_filepath = None, self_composite = None, self_loading = True, self_callbacks = [7, 3, 7]\<rparr>
      (ex_cache, ex_world_src)
    = (Inl (Error ''ValueError'' ''Could not generate composite. Tried methods: ''), ex_cache,
       ex_world_src\<lparr>log := [(DEBUG, ''Generating composite for PSD: PSDImage''),
                            (ERROR, ''Could not generate composite. Tried methods: ''),
                            (ERROR, ''Failed to create error placeholder: out of memory'')]\<rparr>)"
  by (simp add: render_defs placeholder_defs ex_psd_bare_def ex_pil_def ex_pil_broken_def
        ex_world_src_def)

lemma get_composite_image_steps:
  "get_composite_image cb p =
     (case call_check p of
        Some img \<Rightarrow> (Some img, p)
      | None \<Rightarrow> (None, call_start (call_attach cb p)))"
  by (simp add: get_composite_image_def call_check_def call_attach_def call_start_def Let_def
           split: option.splits)

lemma thread_target_steps:
  "thread_target P E ce psd p =
     thread_finish ce (fst (thread_generate P E psd p)) (snd (thread_generate P E psd p))"
proof -
  obtain r cache' w' where g: "generate_composite P E psd (renderer p) (psd_cache p, wld p) = (r, cache', w')"
    by (cases "generate_composite P E psd (renderer p) (psd_cache p, wld p)") auto
  show ?thesis
    by (cases r) (simp_all add: thread_target_def thread_generate_def thread_finish_def g
                    on_composite_ready_def Let_def)
qed

lemma generate_composite_filepath:
  assumes a: "self_filepath s1 = self_filepath s2"
  shows "generate_composite P E psd s1 cw = generate_composite P E psd s2 cw"
  unfolding generate_composite_def a ..

lemma get_composite_image_frame:
  "psd_cache (snd (get_composite_image cb p)) = psd_cache p \<and>
   wld (snd (get_composite_image cb p)) = wld p \<and>
   self_filepath (renderer (snd (get_composite_image cb p))) = self_filepath (renderer p) \<and>
   invoked (snd (get_composite_image cb p)) = invoked p \<and>
   uncaught (snd (get_composite_image cb p)) = uncaught p"
  by (simp add: get_composite_image_def Let_def split: option.splits)

lemma thread_generate_frame:
  "renderer (snd (thread_generate P E psd p)) = renderer p \<and>
   started (snd (thread_generate P E psd p)) = started p \<and>
   invoked (snd (thread_generate P E psd p)) = invoked p \<and>
   uncaught (snd (thread_generate P E psd p)) = uncaught p"
  by (simp add: thread_generate_def split: prod.splits)

lemma call_generate_commute:
  "fst (thread_generate P E psd (snd (get_composite_image cb q))) = fst (thread_generate P E psd q)
   \<and> snd (thread_generate P E psd (snd (get_composite_image cb q)))
       = snd (get_composite_image cb (snd (thread_generate P E psd q)))
   \<and> fst (get_composite_image cb (snd (thread_generate P E psd q))) = fst (get_composite_image cb q)"
proof -
  let ?q' = "snd (get_composite_image cb q)"
  obtain r c' w' where g: "generate_composite P E psd (renderer q) (psd_cache q, wld q) = (r, c', w')"
    by (cases "generate_composite P E psd (renderer q) (psd_cache q, wld q)") auto
  from get_composite_image_frame[of cb q]
  have fr: "psd_cache ?q' = psd_cache q" "wld ?q' = wld q"
    "self_filepath (renderer ?q') = self_filepath (renderer q)"
    by simp_all
  have gq: "generate_composite P E psd (renderer ?q') (psd_cache ?q', wld ?q') = (r, c', w')"
    using generate_composite_filepath[OF fr(3), of P E psd "(psd_cache q, wld q)"] g
    by (simp only: fr(1,2))
  have tq: "thread_generate P E psd q = (r, q\<lparr>psd_cache := c', wld := w'\<rparr>)"
    by (simp add: thread_generate_def g)
  have tq': "thread_generate P E psd ?q' = (r, ?q'\<lparr>psd_cache := c', wld := w'\<rparr>)"
    by (simp add: thread_generate_def gq)
  have c: "get_composite_image cb (q\<lparr>psd_cache := c', wld := w'\<rparr>)
      = (fst (get_composite_image cb q), ?q'\<lparr>psd_cache := c', wld := w'\<rparr>)"
    by (simp add: get_composite_image_def Let_def split: option.splits)
  show ?thesis
    by (simp add: tq tq' c)
qed

lemma ex_generate_bare:
  "self_filepath s = None \<Longrightarrow>
   generate_composite ex_pil ex_env ex_psd_bare s (ex_cache, ex_world_src)
    = (Inr ex_placeholder, ex_cache,
       ex_world_src\<lparr>log := [(DEBUG, ''Generating composite for PSD: PSDImage''),
                            (ERROR, ''Could not generate composite. Tried methods: '')]\<rparr>)"
  by (simp add: render_defs placeholder_defs ex_psd_bare_def ex_pil_def ex_placeholder_def
        ex_world_src_def)

text \<open>
  C4, as the code has it.  Take a renderer as its constructor leaves it when the cache had
  no composite, with no worker thread started and no callback invoked.  Let one or more
  requests, each with a callback, run to their end, let the worker run the generation, and
  let further requests run to their end before the worker goes on to the completion: every
  request returns \<open>None\<close>, exactly one worker thread has been started, and the callbacks
  are attached in the order of the requests.  When the generation returned a bitmap, the
  completion invokes each attached callback once, in the order of attachment and with that
  bitmap (a callback that raises does not stop the others), leaves the callback list empty
  and no thread pending, and every later request returns that bitmap at once and changes
  nothing.  The worker's target is the generation followed by the completion; a request and
  the generation touch different parts of the state, so that they give the same results in
  either order.
\<close>

theorem single_generation:
  assumes built: "renderer p = fst (PSDFullRenderer_init E psd fpath cw)"
    and miss: "self_composite (renderer p) = None"
    and idle: "started p = 0" and quiet: "invoked p = []"
    and some: "cbs1 \<noteq> []"
    and req1: "requests (map Some cbs1) p = (rs1, p1)"
    and gen: "thread_generate P E psd p1 = (r, p2)"
    and req2: "requests (map Some cbs2) p2 = (rs2, p3)"
  shows "rs1 = replicate (length cbs1) None \<and> rs2 = replicate (length cbs2) None
     \<and> started p1 = 1 \<and> started p3 = 1
     \<and> self_callbacks (renderer p3) = cbs1 @ cbs2 \<and> self_composite (renderer p3) = None
     \<and> thread_target P E ce psd p1 = thread_finish ce r p2
     \<and> (\<forall>B. r = Inr B \<longrightarrow>
            invoked (thread_finish ce r p3) = map (\<lambda>cb. (cb, B)) (cbs1 @ cbs2)
          \<and> self_callbacks (renderer (thread_finish ce r p3)) = []
          \<and> started (thread_finish ce r p3) = 0
          \<and> (\<forall>cb. get_composite_image cb (thread_finish ce r p3)
                     = (Some B, thread_finish ce r p3)))
     \<and> fst (thread_generate P E psd (snd (get_composite_image cb0 q)))
         = fst (thread_generate P E psd q)
     \<and> snd (thread_generate P E psd (snd (get_composite_image cb0 q)))
         = snd (get_composite_image cb0 (snd (thread_generate P E psd q)))
     \<and> fst (get_composite_image cb0 (snd (thread_generate P E psd q)))
         = fst (get_composite_image cb0 q)"
proof -
  from some obtain c cs where cbs: "cbs1 = c # cs" by (cases cbs1) auto
  from built init_idle[of E psd fpath cw]
  have nl: "\<not> self_loading (renderer p)" and nc: "self_callbacks (renderer p) = []"
    by simp_all
  from requests_fresh[OF miss nl nc, of c cs] req1 cbs
  have rs1: "rs1 = replicate (length cbs1) None"
    and p1: "p1 = p\<lparr>renderer := (renderer p)\<lparr>self_callbacks := cbs1, self_loading := True\<rparr>,
                    started := started p + 1\<rparr>"
    by simp_all
  have a1: "started p1 = 1" "self_callbacks (renderer p1) = cbs1"
    "self_composite (renderer p1) = None" "invoked p1 = []" "self_loading (renderer p1)"
    using idle miss quiet by (simp_all add: p1)
  from thread_generate_frame[of P E psd p1] gen
  have f2: "renderer p2 = renderer p1" "started p2 = started p1" "invoked p2 = invoked p1"
    by simp_all
  have m2: "self_composite (renderer p2) = None" and l2: "self_loading (renderer p2)"
    using a1 f2 by simp_all
  from requests_loading[OF m2 l2, of cbs2] req2
  have rs2: "rs2 = replicate (length cbs2) None"
    and p3: "p3 = p2\<lparr>renderer := (renderer p2)\<lparr>self_callbacks := self_callbacks (renderer p2) @ cbs2\<rparr>\<rparr>"
    by simp_all
  have a3: "started p3 = 1" "self_callbacks (renderer p3) = cbs1 @ cbs2"
    "self_composite (renderer p3) = None" "invoked p3 = []"
    using a1 f2 by (simp_all add: p3)
  have tt: "thread_target P E ce psd p1 = thread_finish ce r p2"
    using thread_target_steps[of P E ce psd p1] gen by simp
  have fin: "\<forall>B. r = Inr B \<longrightarrow>
            invoked (thread_finish ce r p3) = map (\<lambda>cb. (cb, B)) (cbs1 @ cbs2)
          \<and> self_callbacks (renderer (thread_finish ce r p3)) = []
          \<and> started (thread_finish ce r p3) = 0
          \<and> (\<forall>cb. get_composite_image cb (thread_finish ce r p3)
                     = (Some B, thread_finish ce r p3))"
  proof (intro allI impI)
    fix B assume r: "r = Inr B"
    let ?q = "p3\<lparr>started := started p3 - 1\<rparr>"
    have t: "thread_finish ce r p3 = on_composite_ready ce B ?q"
      by (simp add: thread_finish_def r)
    from on_composite_ready_effect[of ce B ?q] a3
    have e: "invoked (on_composite_ready ce B ?q) = map (\<lambda>cb. (cb, B)) (cbs1 @ cbs2)"
      "self_callbacks (renderer (on_composite_ready ce B ?q)) = []"
      "started (on_composite_ready ce B ?q) = 0"
      "self_composite (renderer (on_composite_ready ce B ?q)) = Some B"
      by simp_all
    show "invoked (thread_finish ce r p3) = map (\<lambda>cb. (cb, B)) (cbs1 @ cbs2)
          \<and> self_callbacks (renderer (thread_finish ce r p3)) = []
          \<and> started (thread_finish ce r p3) = 0
          \<and> (\<forall>cb. get_composite_image cb (thread_finish ce r p3)
                     = (Some B, thread_finish ce r p3))"
      unfolding t using e by (simp add: get_composite_image_ready)
  qed
  from rs1 rs2 a1(1) a3(1,2,3) tt fin call_generate_commute[of P E psd cb0 q]
  show ?thesis by blast
qed

theorem single_generation_witness:
  "renderer ex_process = fst (PSDFullRenderer_init ex_env ex_psd_bare None (ex_cache, ex_world_src))
   \<and> self_composite (renderer ex_process) = None
   \<and> started ex_process = 0 \<and> invoked ex_process = []
   \<and> fst (requests (map Some [7, 3]) ex_process) = [None, None]
   \<and> started (snd (requests (map Some [7, 3]) ex_process)) = 1
   \<and> fst (thread_generate ex_pil ex_env ex_psd_bare (snd (requests (map Some [7, 3]) ex_process)))
       = Inr ex_placeholder
   \<and> fst (requests (map Some [7])
            (snd (thread_generate ex_pil ex_env ex_psd_bare
                    (snd (requests (map Some [7, 3]) ex_process))))) = [None]
   \<and> started (snd (requests (map Some [7])
            (snd (thread_generate ex_pil ex_env ex_psd_bare
                    (snd (requests (map Some [7, 3]) ex_process)))))) = 1
   \<and> invoked (thread_finish ex_cb_error (Inr ex_placeholder)
        (snd (requests (map Some [7])
            (snd (thread_generate ex_pil ex_env ex_psd_bare
                    (snd (requests (map Some [7, 3]) ex_process)))))))
       = [(7, ex_placeholder), (3, ex_placeholder), (7, ex_placeholder)]
   \<and> fst (get_composite_image None (thread_finish ex_cb_error (Inr ex_placeholder)
        (snd (requests (map Some [7])
            (snd (thread_generate ex_pil ex_env ex_psd_bare
                    (snd (requests (map Some [7, 3]) ex_process)))))))) = Some ex_placeholder"
proof -
  let ?w = "ex_world_src\<lparr>log := [(DEBUG, ''Generating composite for PSD: PSDImage''),
                            (ERROR, ''Could not generate composite. Tried methods: '')]\<rparr>"
  let ?p1 = "ex_process\<lparr>renderer := \<lparr>self_filepath = None, self_composite = None,
                 self_loading = True, self_callbacks = [7, 3]\<rparr>, started := 1\<rparr>"
  let ?p2 = "?p1\<lparr>psd_cache := ex_cache, wld := ?w\<rparr>"
  let ?p3 = "?p2\<lparr>renderer := \<lparr>self_filepath = None, self_composite = None,
                 self_loading = True, self_callbacks = [7, 3, 7]\<rparr>\<rparr>"
  have built: "renderer ex_process
      = fst (PSDFullRenderer_init ex_env ex_psd_bare None (ex_cache, ex_world_src))"
    by (simp add: ex_process_def)
  have miss: "self_composite (renderer ex_process) = None"
    by (simp add: renderer_defs)
  have idle: "started ex_process = 0" and quiet: "invoked ex_process = []"
    by (simp_all add: ex_process_def)
  have some: "[7, 3] \<noteq> ([] :: callback list)" by simp
  have req1: "requests (map Some [7, 3]) ex_process = ([None, None], ?p1)"
    by (simp add: renderer_defs)
  have gen: "thread_generate ex_pil ex_env ex_psd_bare ?p1 = (Inr ex_placeholder, ?p2)"
    by (simp add: thread_generate_def ex_generate_bare ex_process_def)
  have req2: "requests (map Some [7]) ?p2 = ([None], ?p3)"
    by (simp add: get_composite_image_def ex_process_def)
  note inst = single_generation [OF built miss idle quiet some req1 gen req2,
      where ce = ex_cb_error]
  from inst have s: "started ?p1 = 1" "started ?p3 = 1"
    by simp_all
  from inst have f:
    "invoked (thread_finish ex_cb_error (Inr ex_placeholder) ?p3)
       = map (\<lambda>cb. (cb, ex_placeholder)) ([7, 3] @ [7])"
    "get_composite_image None (thread_finish ex_cb_error (Inr ex_placeholder) ?p3)
       = (Some ex_placeholder, thread_finish ex_cb_error (Inr ex_placeholder) ?p3)"
    by blast+
  from f(1) have f1: "invoked (thread_finish ex_cb_error (Inr ex_placeholder) ?p3)
       = [(7, ex_placeholder), (3, ex_placeholder), (7, ex_placeholder)]"
    by simp
  from f(2) have f2: "fst (get_composite_image None
       (thread_finish ex_cb_error (Inr ex_placeholder) ?p3)) = Some ex_placeholder"
    by simp
  show ?thesis
    unfolding req1 fst_conv snd_conv gen req2
    using built miss idle quiet s f1 f2 by (intro conjI) simp_all
qed

text \<open>
  C4 as stated fails for a request that the completion overtakes.  The first request starts
  the worker.  A second request tests \<open>self._composite\<close>, finds none, and is interrupted;
  the worker completes, invoking the first callback and clearing \<open>_loading\<close>; the second
  request goes on, attaches its callback and, finding \<open>_loading\<close> false, starts a second
  generation.
\<close>

theorem second_generation_when_overtaken:
  "call_check (snd (get_composite_image (Some 7) ex_process)) = None
   \<and> started (snd (get_composite_image (Some 7) ex_process)) = 1
   \<and> started (thread_target ex_pil ex_env ex_cb_error ex_psd_bare
                (snd (get_composite_image (Some 7) ex_process))) = 0
   \<and> invoked (thread_target ex_pil ex_env ex_cb_error ex_psd_bare
                (snd (get_composite_image (Some 7) ex_process))) = [(7, ex_placeholder)]
   \<and> started (call_start (call_attach (Some 3)
                (thread_target ex_pil ex_env ex_cb_error ex_psd_bare
                   (snd (get_composite_image (Some 7) ex_process))))) = 1
   \<and> self_callbacks (renderer (call_start (call_attach (Some 3)
                (thread_target ex_pil ex_env ex_cb_error ex_psd_bare
                   (snd (get_composite_image (Some 7) ex_process)))))) = [3]
   \<and> invoked (call_start (call_attach (Some 3)
                (thread_target ex_pil ex_env ex_cb_error ex_psd_bare
                   (snd (get_composite_image (Some 7) ex_process))))) = [(7, ex_placeholder)]"
proof -
  let ?p1 = "ex_process\<lparr>renderer := \<lparr>self_filepath = None, self_composite = None,
                 self_loading = True, self_callbacks = [7]\<rparr>, started := 1\<rparr>"
  have c1: "get_composite_image (Some 7) ex_process = (None, ?p1)"
    by (simp add: renderer_defs)
  have g: "generate_composite ex_pil ex_env ex_psd_bare (renderer ?p1) (psd_cache ?p1, wld ?p1)
    = (Inr ex_placeholder, ex_cache,
       ex_world_src\<lparr>log := [(DEBUG, ''Generating composite for PSD: PSDImage''),
                            (ERROR, ''Could not generate composite. Tried methods: '')]\<rparr>)"
    using ex_generate_bare[of "renderer ?p1"] by (simp add: ex_process_def)
  let ?t = "thread_target ex_pil ex_env ex_cb_error ex_psd_bare ?p1"
  let ?q = "?p1\<lparr>psd_cache := ex_cache,
                 wld := ex_world_src\<lparr>log := [(DEBUG, ''Generating composite for PSD: PSDImage''),
                            (ERROR, ''Could not generate composite. Tried methods: '')]\<rparr>,
                 started := started ?p1 - 1\<rparr>"
  have t: "?t = on_composite_ready ex_cb_error ex_placeholder ?q"
    by (rule thread_target_Inr[OF g])
  from on_composite_ready_effect[of ex_cb_error ex_placeholder ?q]
  have e: "invoked ?t = [(7, ex_placeholder)]" "started ?t = 0"
    "\<not> self_loading (renderer ?t)" "self_callbacks (renderer ?t) = []"
    unfolding t by (simp_all add: ex_process_def)
  have k: "call_check ?p1 = None" "started ?p1 = 1"
    by (simp_all add: call_check_def)
  have a: "started (call_start (call_attach (Some 3) ?t)) = 1"
    "self_callbacks (renderer (call_start (call_attach (Some 3) ?t))) = [3]"
    "invoked (call_start (call_attach (Some 3) ?t)) = [(7, ex_placeholder)]"
    using e by (simp_all add: call_start_def call_attach_def)
  show ?thesis
    unfolding c1 snd_conv using k e(1,2) a by (intro conjI)
qed

text \<open>
  C5, as the code has it.  When the generation on the worker thread returns a bitmap (the
  diagnostic placeholder included), every attached callback is invoked with it.  When the
  generation raises, which happens only when no strategy gave a composite and drawing the
  placeholder raised, nothing in the thread body catches the exception: it ends the thread,
  no callback is invoked and the renderer is left as it was, still without a composite.  A
  request itself never raises: it returns the bitmap the renderer holds, or \<open>None\<close>.
\<close>

theorem generation_error_not_caught:
  "(generate_composite P E psd (renderer p) (psd_cache p, wld p) = (Inr B, cache', w') \<longrightarrow>
      invoked (thread_target P E ce psd p)
        = invoked p @ map (\<lambda>cb. (cb, B)) (self_callbacks (renderer p))
      \<and> self_composite (renderer (thread_target P E ce psd p)) = Some B
      \<and> uncaught (thread_target P E ce psd p) = uncaught p)
   \<and> (generate_composite P E psd (renderer p) (psd_cache p, wld p) = (Inl e, cache', w') \<longrightarrow>
      invoked (thread_target P E ce psd p) = invoked p
      \<and> renderer (thread_target P E ce psd p) = renderer p
      \<and> uncaught (thread_target P E ce psd p) = uncaught p @ [e]
      \<and> (\<exists>mt w1 fe. strategies P psd (wld p) = (None, mt, w1) \<and> placeholder P mt = Inl fe))
   \<and> (self_composite (renderer p) = None \<longrightarrow> fst (get_composite_image cb p) = None)
   \<and> (self_composite (renderer p) = Some img \<longrightarrow> get_composite_image cb p = (Some img, p))"
proof -
  have a: "generate_composite P E psd (renderer p) (psd_cache p, wld p) = (Inr B, cache', w') \<longrightarrow>
      invoked (thread_target P E ce psd p)
        = invoked p @ map (\<lambda>cb. (cb, B)) (self_callbacks (renderer p))
      \<and> self_composite (renderer (thread_target P E ce psd p)) = Some B
      \<and> uncaught (thread_target P E ce psd p) = uncaught p"
  proof
    assume g: "generate_composite P E psd (renderer p) (psd_cache p, wld p) = (Inr B, cache', w')"
    let ?q = "p\<lparr>psd_cache := cache', wld := w', started := started p - 1\<rparr>"
    from on_composite_ready_effect[of ce B ?q]
    show "invoked (thread_target P E ce psd p)
        = invoked p @ map (\<lambda>cb. (cb, B)) (self_callbacks (renderer p))
      \<and> self_composite (renderer (thread_target P E ce psd p)) = Some B
      \<and> uncaught (thread_target P E ce psd p) = uncaught p"
      unfolding thread_target_Inr[OF g] by simp
  qed
  have b: "generate_composite P E psd (renderer p) (psd_cache p, wld p) = (Inl e, cache', w') \<longrightarrow>
      invoked (thread_target P E ce psd p) = invoked p
      \<and> renderer (thread_target P E ce psd p) = renderer p
      \<and> uncaught (thread_target P E ce psd p) = uncaught p @ [e]
      \<and> (\<exists>mt w1 fe. strategies P psd (wld p) = (None, mt, w1) \<and> placeholder P mt = Inl fe)"
  proof
    assume g: "generate_composite P E psd (renderer p) (psd_cache p, wld p) = (Inl e, cache', w')"
    from generate_composite_Inl[OF g]
    have x: "\<exists>mt w1 fe. strategies P psd (wld p) = (None, mt, w1) \<and> placeholder P mt = Inl fe"
      by blast
    show "invoked (thread_target P E ce psd p) = invoked p
      \<and> renderer (thread_target P E ce psd p) = renderer p
      \<and> uncaught (thread_target P E ce psd p) = uncaught p @ [e]
      \<and> (\<exists>mt w1 fe. strategies P psd (wld p) = (None, mt, w1) \<and> placeholder P mt = Inl fe)"
      unfolding thread_target_Inl[OF g] using x by simp
  qed
  have c: "self_composite (renderer p) = None \<longrightarrow> fst (get_composite_image cb p) = None"
    by (simp add: get_composite_image_def Let_def)
  have d: "self_composite (renderer p) = Some img \<longrightarrow> get_composite_image cb p = (Some img, p)"
    by (simp add: get_composite_image_ready)
  from a b c d show ?thesis by blast
qed

theorem generation_error_not_caught_witness:
  "fst (generate_composite ex_pil ex_env ex_psd_bare
         (renderer (snd (requests (map Some [7, 3, 7]) ex_process))) (ex_cache, ex_world_src))
     = Inr ex_placeholder
   \<and> invoked (thread_target ex_pil ex_env ex_cb_error ex_psd_bare
                (snd (requests (map Some [7, 3, 7]) ex_process)))
       = [(7, ex_placeholder), (3, ex_placeholder), (7, ex_placeholder)]
   \<and> fst (generate_composite ex_pil_broken ex_env ex_psd_bare
         (renderer (snd (requests (map Some [7, 3, 7]) ex_process))) (ex_cache, ex_world_src))
     = Inl (Error ''ValueError'' ''Could not generate composite. Tried methods: '')
   \<and> invoked (thread_target ex_pil_broken ex_env ex_cb_error ex_psd_bare
                (snd (requests (map Some [7, 3, 7]) ex_process))) = []
   \<and> uncaught (thread_target ex_pil_broken ex_env ex_cb_error ex_psd_bare
                (snd (requests (map Some [7, 3, 7]) ex_process)))
       = [Error ''ValueError'' ''Could not generate composite. Tried methods: '']
   \<and> fst (get_composite_image None (thread_target ex_pil_broken ex_env ex_cb_error ex_psd_bare
                (snd (requests (map Some [7, 3, 7]) ex_process)))) = None
   \<and> placeholder ex_pil_broken [] = Inl (Error ''MemoryError'' ''out of memory'')"
proof -
  let ?p1 = "ex_process\<lparr>renderer := \<lparr>self_filepath = None, self_composite = None,
                 self_loading = True, self_callbacks = [7, 3, 7]\<rparr>, started := 1\<rparr>"
  have p1: "snd (requests (map Some [7, 3, 7]) ex_process) = ?p1"
    by (simp only: ex_requests snd_conv)
  have gen: "generate_composite ex_pil ex_env ex_psd_bare (renderer ?p1) (psd_cache ?p1, wld ?p1)
    = (Inr ex_placeholder, ex_cache,
       ex_world_src\<lparr>log := [(DEBUG, ''Generating composite for PSD: PSDImage''),
                            (ERROR, ''Could not generate composite. Tried methods: '')]\<rparr>)"
    using ex_generate by (simp add: ex_process_def)
  have genb: "generate_composite ex_pil_broken ex_env ex_psd_bare (renderer ?p1) (psd_cache ?p1, wld ?p1)
    = (Inl (Error ''ValueError'' ''Could not generate composite. Tried methods: ''), ex_cache,
       ex_world_src\<lparr>log := [(DEBUG, ''Generating composite for PSD: PSDImage''),
                            (ERROR, ''Could not generate composite. Tried methods: ''),
                            (ERROR, ''Failed to create error placeholder: out of memory'')]\<rparr>)"
    using ex_generate_broken by (simp add: ex_process_def)
  note ok = generation_error_not_caught [where P = ex_pil and E = ex_env and psd = ex_psd_bare
      and p = ?p1 and ce = ex_cb_error, THEN conjunct1, THEN mp, OF gen]
  note bad = generation_error_not_caught [where P = ex_pil_broken and E = ex_env
      and psd = ex_psd_bare and p = ?p1 and ce = ex_cb_error,
      THEN conjunct2, THEN conjunct1, THEN mp, OF genb]
  from ok have a: "invoked (thread_target ex_pil ex_env ex_cb_error ex_psd_bare ?p1)
       = [(7, ex_placeholder), (3, ex_placeholder), (7, ex_placeholder)]"
    by (simp add: ex_process_def)
  from bad have b: "invoked (thread_target ex_pil_broken ex_env ex_cb_error ex_psd_bare ?p1) = []"
    "uncaught (thread_target ex_pil_broken ex_env ex_cb_error ex_psd_bare ?p1)
       = [Error ''ValueError'' ''Could not generate composite. Tried methods: '']"
    "self_composite (renderer (thread_target ex_pil_broken ex_env ex_cb_error ex_psd_bare ?p1)) = None"
    by (simp_all add: ex_process_def)
  have c: "fst (get_composite_image None
                  (thread_target ex_pil_broken ex_env ex_cb_error ex_psd_bare ?p1)) = None"
    using b(3) by (simp add: get_composite_image_def Let_def)
  have d: "placeholder ex_pil_broken [] = Inl (Error ''MemoryError'' ''out of memory'')"
    by (simp add: placeholder_defs image_new_def ex_pil_broken_def ex_pil_def)
  have g1: "fst (generate_composite ex_pil ex_env ex_psd_bare (renderer ?p1) (ex_cache, ex_world_src))
     = Inr ex_placeholder"
    using ex_generate by simp
  have g2: "fst (generate_composite ex_pil_broken ex_env ex_psd_bare (renderer ?p1)
                   (ex_cache, ex_world_src))
     = Inl (Error ''ValueError'' ''Could not generate composite. Tried methods: '')"
    using ex_generate_broken by simp
  show ?thesis
    unfolding p1 using a b c d g1 g2 by (intro conjI) simp_all
qed

text \<open>
  C5 as stated fails when drawing the placeholder raises: three callbacks are attached, the
  generation raises \<open>ValueError\<close>, the worker thread ends with that exception uncaught, and
  no callback has been invoked.
\<close>

theorem generation_error_kills_thread:
  "self_callbacks (renderer (snd (requests (map Some [7, 3, 7]) ex_process))) = [7, 3, 7]
   \<and> fst (generate_composite ex_pil_broken ex_env ex_psd_bare
         (renderer (snd (requests (map Some [7, 3, 7]) ex_process))) (ex_cache, ex_world_src))
     = Inl (Error ''ValueError'' ''Could not generate composite. Tried methods: '')
   \<and> invoked (thread_target ex_pil_broken ex_env ex_cb_error ex_psd_bare
                (snd (requests (map Some [7, 3, 7]) ex_process))) = []
   \<and> uncaught (thread_target ex_pil_broken ex_env ex_cb_error ex_psd_bare
                (snd (requests (map Some [7, 3, 7]) ex_process)))
       = [Error ''ValueError'' ''Could not generate composite. Tried methods: '']"
  unfolding ex_requests snd_conv
  by (simp add: ex_generate_broken thread_target_def ex_process_def)

section \<open>Layer visibility\<close>

lemma set_visibility_unchanged:
  "\<not> fst (set_visibility l n v) \<Longrightarrow> snd (set_visibility l n v) = l"
  "\<not> fst (set_visibility_loop ls n v) \<Longrightarrow> snd (set_visibility_loop ls n v) = ls"
  by (induction l n v and ls n v rule: set_visibility_set_visibility_loop.induct)
     (auto split: prod.splits bool.splits if_splits)

lemma set_visibility_skeleton:
  "erase_visible (snd (set_visibility l n v)) = erase_visible l"
  "map erase_visible (snd (set_visibility_loop ls n v)) = map erase_visible ls"
  by (induction l n v and ls n v rule: set_visibility_set_visibility_loop.induct)
     (auto split: prod.splits bool.splits if_splits)

lemma set_visibility_flags:
  "fst (set_visibility l n v) \<Longrightarrow>
     \<exists>pre old post. flags l = pre @ (n, old) # post \<and>
                    flags (snd (set_visibility l n v)) = pre @ (n, v) # post"
  "fst (set_visibility_loop ls n v) \<Longrightarrow>
     \<exists>pre old post. concat (map flags ls) = pre @ (n, old) # post \<and>
                    concat (map flags (snd (set_visibility_loop ls n v))) = pre @ (n, v) # post"
proof (induction l n v and ls n v rule: set_visibility_set_visibility_loop.induct)
  case (1 nm vis grp chs l t wd ht tp n is_visible)
  show ?case
  proof (cases "nm = n")
    case True
    then have "flags (Layer nm vis grp chs l t wd ht tp) = [] @ (n, vis) # concat (map flags chs)
      \<and> flags (snd (set_visibility (Layer nm vis grp chs l t wd ht tp) n is_visible))
          = [] @ (n, is_visible) # concat (map flags chs)"
      by simp
    then show ?thesis by blast
  next
    case False
    with "1.prems" have grp: grp and found: "fst (set_visibility_loop chs n is_visible)"
      by (auto split: if_splits prod.splits)
    from "1.IH"[OF False grp found] obtain pre old post where
      a: "concat (map flags chs) = pre @ (n, old) # post"
      and b: "concat (map flags (snd (set_visibility_loop chs n is_visible))) = pre @ (n, is_visible) # post"
      by blast
    have "flags (Layer nm vis grp chs l t wd ht tp) = ((nm, vis) # pre) @ (n, old) # post
      \<and> flags (snd (set_visibility (Layer nm vis grp chs l t wd ht tp) n is_visible))
          = ((nm, vis) # pre) @ (n, is_visible) # post"
      using False grp a b by (auto split: prod.splits)
    then show ?thesis by blast
  qed
next
  case (2 n is_visible)
  then show ?case by simp
next
  case (3 child rest n is_visible)
  show ?case
  proof (cases "fst (set_visibility child n is_visible)")
    case True
    from "3.IH"(1)[OF True] obtain pre old post where
      a: "flags child = pre @ (n, old) # post"
      and b: "flags (snd (set_visibility child n is_visible)) = pre @ (n, is_visible) # post"
      by blast
    have "concat (map flags (child # rest)) = pre @ (n, old) # (post @ concat (map flags rest))
      \<and> concat (map flags (snd (set_visibility_loop (child # rest) n is_visible)))
          = pre @ (n, is_visible) # (post @ concat (map flags rest))"
      using True a b by (auto split: prod.splits bool.splits)
    then show ?thesis by blast
  next
    case False
    obtain child' where sc: "set_visibility child n is_visible = (False, child')"
      using False by (cases "set_visibility child n is_visible") auto
    from set_visibility_unchanged(1)[OF False] sc have same: "child' = child" by simp
    from "3.prems" sc have found: "fst (set_visibility_loop rest n is_visible)"
      by (simp split: prod.splits)
    from "3.IH"(2)[OF sc[symmetric] _ found] obtain pre old post where
      a: "concat (map flags rest) = pre @ (n, old) # post"
      and b: "concat (map flags (snd (set_visibility_loop rest n is_visible))) = pre @ (n, is_visible) # post"
      by auto
    have "concat (map flags (child # rest)) = (flags child @ pre) @ (n, old) # post
      \<and> concat (map flags (snd (set_visibility_loop (child # rest) n is_visible)))
          = (flags child @ pre) @ (n, is_visible) # post"
      using sc same a b by (auto split: prod.splits)
    then show ?thesis by blast
  qed
qed

text \<open>
  C9.  \<open>set_layer_visibility\<close> reads and writes the layer tree of the document only (it is
  given neither the file system nor the cache): the renderer the document holds, and with it
  the composite in memory, is as before.  Without a parsed document the answer is false and
  nothing changes.  Otherwise the new tree differs from the old one in visibility flags
  only; if no layer matched, it is the old tree; if one matched, the list of (name, flag)
  pairs in document order changed at exactly one position, which carries the requested name
  and now holds the requested flag.  A renderer that holds a composite returns that same
  bitmap to the document's next request, before and after the change.
\<close>

theorem visibility_leaves_composite:
  "doc_renderer (snd (set_layer_visibility n v doc)) = doc_renderer doc
   \<and> doc_filepath (snd (set_layer_visibility n v doc)) = doc_filepath doc
   \<and> (doc_psd doc = None \<longrightarrow> set_layer_visibility n v doc = (False, doc))
   \<and> (doc_psd doc = Some psd \<longrightarrow>
        (\<exists>ls'. doc_psd (snd (set_layer_visibility n v doc)) = Some (psd\<lparr>psd_layers := ls'\<rparr>)
           \<and> map erase_visible ls' = map erase_visible (psd_layers psd)
           \<and> (\<not> fst (set_layer_visibility n v doc) \<longrightarrow> ls' = psd_layers psd)
           \<and> (fst (set_layer_visibility n v doc) \<longrightarrow>
                (\<exists>pre old post. concat (map flags (psd_layers psd)) = pre @ (n, old) # post \<and>
                                concat (map flags ls') = pre @ (n, v) # post))))
   \<and> (doc_renderer doc = Some r \<and> self_composite r = Some B \<longrightarrow>
        fst (PSDDocument_get_composite_image doc p) = Some B
      \<and> fst (PSDDocument_get_composite_image (snd (set_layer_visibility n v doc)) p) = Some B)"
proof -
  have frame: "doc_renderer (snd (set_layer_visibility n v doc)) = doc_renderer doc
      \<and> doc_filepath (snd (set_layer_visibility n v doc)) = doc_filepath doc"
    by (simp add: set_layer_visibility_def split: option.splits prod.splits)
  have none: "doc_psd doc = None \<longrightarrow> set_layer_visibility n v doc = (False, doc)"
    by (simp add: set_layer_visibility_def)
  have tree: "doc_psd doc = Some psd \<longrightarrow>
        (\<exists>ls'. doc_psd (snd (set_layer_visibility n v doc)) = Some (psd\<lparr>psd_layers := ls'\<rparr>)
           \<and> map erase_visible ls' = map erase_visible (psd_layers psd)
           \<and> (\<not> fst (set_layer_visibility n v doc) \<longrightarrow> ls' = psd_layers psd)
           \<and> (fst (set_layer_visibility n v doc) \<longrightarrow>
                (\<exists>pre old post. concat (map flags (psd_layers psd)) = pre @ (n, old) # post \<and>
                                concat (map flags ls') = pre @ (n, v) # post)))"
  proof
    assume d: "doc_psd doc = Some psd"
    obtain found ls' where l: "set_visibility_loop (psd_layers psd) n v = (found, ls')"
      by (cases "set_visibility_loop (psd_layers psd) n v")
    have r: "set_layer_visibility n v doc = (found, doc\<lparr>doc_psd := Some (psd\<lparr>psd_layers := ls'\<rparr>)\<rparr>)"
      by (simp add: set_layer_visibility_def d l)
    from set_visibility_skeleton(2)[of "psd_layers psd" n v] l
    have sk: "map erase_visible ls' = map erase_visible (psd_layers psd)" by simp
    from set_visibility_unchanged(2)[of "psd_layers psd" n v] l
    have un: "\<not> found \<longrightarrow> ls' = psd_layers psd" by simp
    from set_visibility_flags(2)[of "psd_layers psd" n v] l
    have fl: "found \<longrightarrow> (\<exists>pre old post. concat (map flags (psd_layers psd)) = pre @ (n, old) # post \<and>
                                concat (map flags ls') = pre @ (n, v) # post)"
      by simp
    show "\<exists>ls'. doc_psd (snd (set_layer_visibility n v doc)) = Some (psd\<lparr>psd_layers := ls'\<rparr>)
           \<and> map erase_visible ls' = map erase_visible (psd_layers psd)
           \<and> (\<not> fst (set_layer_visibility n v doc) \<longrightarrow> ls' = psd_layers psd)
           \<and> (fst (set_layer_visibility n v doc) \<longrightarrow>
                (\<exists>pre old post. concat (map flags (psd_layers psd)) = pre @ (n, old) # post \<and>
                                concat (map flags ls') = pre @ (n, v) # post))"
      using sk un fl by (intro exI[of _ ls']) (simp add: r)
  qed
  have ready: "doc_renderer doc = Some r \<and> self_composite r = Some B \<longrightarrow>
        fst (PSDDocument_get_composite_image doc p) = Some B
      \<and> fst (PSDDocument_get_composite_image (snd (set_layer_visibility n v doc)) p) = Some B"
    using frame by (simp add: PSDDocument_get_composite_image_def get_composite_image_def)
  from frame none tree ready show ?thesis by blast
qed

theorem visibility_leaves_composite_witness:
  "doc_psd ex_document = Some (ex_psd_bare\<lparr>psd_layers := ex_tree\<rparr>)
   \<and> fst (set_layer_visibility ''logo'' False ex_document) = True
   \<and> doc_psd (snd (set_layer_visibility ''logo'' False ex_document))
       = Some (ex_psd_bare\<lparr>psd_layers :=
            [Layer ''group'' True True
               [Layer ''sky'' True False [] 0 0 1 1 None, Layer ''logo'' False False [] 0 0 1 1 None]
               0 0 1 1 None,
             Layer ''logo'' True False [] 0 0 1 1 None]\<rparr>)
   \<and> doc_renderer (snd (set_layer_visibility ''logo'' False ex_document)) = doc_renderer ex_document
   \<and> doc_renderer ex_document
       = Some \<lparr>self_filepath = None, self_composite = Some ex_bitmap, self_loading = False,
               self_callbacks = []\<rparr>
   \<and> fst (PSDDocument_get_composite_image ex_document ex_process) = Some ex_bitmap
   \<and> fst (PSDDocument_get_composite_image (snd (set_layer_visibility ''logo'' False ex_document))
            ex_process) = Some ex_bitmap
   \<and> fst (set_layer_visibility ''missing'' False ex_document) = False
   \<and> snd (set_layer_visibility ''missing'' False ex_document) = ex_document"
proof -
  have d: "doc_psd ex_document = Some (ex_psd_bare\<lparr>psd_layers := ex_tree\<rparr>)"
    by (simp add: ex_document_def)
  have rr: "doc_renderer ex_document
      = Some \<lparr>self_filepath = None, self_composite = Some ex_bitmap, self_loading = False,
              self_callbacks = []\<rparr>"
    "self_composite \<lparr>self_filepath = None, self_composite = Some ex_bitmap, self_loading = False,
              self_callbacks = []\<rparr> = Some ex_bitmap"
    by (simp_all add: ex_document_def)
  note inst = visibility_leaves_composite [where doc = ex_document and n = "''logo''" and v = False
      and p = ex_process and B = ex_bitmap
      and r = "\<lparr>self_filepath = None, self_composite = Some ex_bitmap, self_loading = False,
                 self_callbacks = []\<rparr>"]
  from inst have fr: "doc_renderer (snd (set_layer_visibility ''logo'' False ex_document))
      = doc_renderer ex_document"
    by (rule conjunct1)
  from inst rr have rd: "fst (PSDDocument_get_composite_image ex_document ex_process) = Some ex_bitmap
      \<and> fst (PSDDocument_get_composite_image (snd (set_layer_visibility ''logo'' False ex_document))
            ex_process) = Some ex_bitmap"
    by blast
  have ev: "fst (set_layer_visibility ''logo'' False ex_document) = True"
    "doc_psd (snd (set_layer_visibility ''logo'' False ex_document))
       = Some (ex_psd_bare\<lparr>psd_layers :=
            [Layer ''group'' True True
               [Layer ''sky'' True False [] 0 0 1 1 None, Layer ''logo'' False False [] 0 0 1 1 None]
               0 0 1 1 None,
             Layer ''logo'' True False [] 0 0 1 1 None]\<rparr>)"
    "fst (set_layer_visibility ''missing'' False ex_document) = False"
    "snd (set_layer_visibility ''missing'' False ex_document) = ex_document"
    "doc_renderer ex_document
       = Some \<lparr>self_filepath = None, self_composite = Some ex_bitmap, self_loading = False,
               self_callbacks = []\<rparr>"
    by (simp_all add: set_layer_visibility_def ex_document_def ex_tree_def)
  from d fr rd ev show ?thesis by (intro conjI) simp_all
qed

end
